theory Spec2Isabelle
  imports Complex_Main "HOL-Library.More_List" "HOL-Library.Extended_Nat"
begin

section \<open>Strings and numbers of the scraper\<close>

text \<open>
  The scraper is JavaScript. Its strings are modelled as \<open>string\<close>: a list of code units,
  restricted to the code units 0..255 that \<open>char\<close> can hold. A value that may be
  \<open>undefined\<close> or \<open>null\<close> (the result of cheerio's \<open>attr\<close>, a field of a parsed record)
  is a \<open>string option\<close>, \<open>None\<close> being the absent value.

  The numbers of JavaScript are doubles. An age in days comes from \<open>Number\<close> applied to a
  run of decimal digits, so it is a natural number that a double can hold, or \<open>Infinity\<close>:
  an \<open>enat\<close>. The cutoff \<open>maxAgeDays\<close> comes from \<open>Number\<close> applied to any text of the
  command line and can be any number: a \<open>js_number\<close>, whose finite values are given by
  their exact rational value.
\<close>

datatype js_number = NaN | PosInfinity | NegInfinity | Finite rat

text \<open>The decimal numeral a template literal prints for an integer.\<close>

fun showNat :: "nat \<Rightarrow> string" where
  "showNat n = (if n < 10 then [''0123456789'' ! n]
                else showNat (n div 10) @ [''0123456789'' ! (n mod 10)])"

declare showNat.simps [simp del]

definition showInt :: "int \<Rightarrow> string" where
  "showInt i = (if i < 0 then CHR ''-'' # showNat (nat (- i)) else showNat (nat i))"

text \<open>
  The text that a template literal gives a number. For a whole number below \<open>2 ^ 53\<close> in
  absolute value it is the decimal numeral, with a minus sign when negative. For the
  other finite numbers (fractions, and the large values that print rounded or with an
  exponent) the conversion is not modelled: it is the parameter \<open>toStringOther\<close>.
\<close>

definition isSafeInteger :: "rat \<Rightarrow> bool" where
  "isSafeInteger q = (of_int \<lfloor>q\<rfloor> = q \<and> \<bar>q\<bar> < 2 ^ 53)"

definition numberToString :: "(rat \<Rightarrow> string) \<Rightarrow> js_number \<Rightarrow> string" where
  "numberToString toStringOther x =
     (case x of
        NaN \<Rightarrow> ''NaN''
      | PosInfinity \<Rightarrow> ''Infinity''
      | NegInfinity \<Rightarrow> ''-Infinity''
      | Finite q \<Rightarrow> if isSafeInteger q then showInt \<lfloor>q\<rfloor> else toStringOther q)"

text \<open>\<open>a > x\<close> for an age \<open>a\<close> and a number \<open>x\<close>: every comparison with \<open>NaN\<close> is false.\<close>

definition exceeds :: "enat \<Rightarrow> js_number \<Rightarrow> bool" where
  "exceeds a x =
     (case x of
        NaN \<Rightarrow> False
      | PosInfinity \<Rightarrow> False
      | NegInfinity \<Rightarrow> True
      | Finite q \<Rightarrow> (case a of enat n \<Rightarrow> q < of_nat n | \<infinity> \<Rightarrow> True))"

text \<open>
  The double nearest to a natural number, ties to the even significand, as \<open>Number\<close>
  gives it for a decimal numeral: exact below \<open>2 ^ 53\<close>, rounded to 53 significant bits
  above, and \<open>Infinity\<close> from \<open>2 ^ 1024\<close> on.
\<close>

fun bitLength :: "nat \<Rightarrow> nat" where
  "bitLength n = (if n = 0 then 0 else Suc (bitLength (n div 2)))"

declare bitLength.simps [simp del]

definition toDouble :: "nat \<Rightarrow> enat" where
  "toDouble n =
     (if n < 2 ^ 53 then enat n
      else
        (let e = bitLength n - 53;
             q = n div 2 ^ e;
             r = n mod 2 ^ e;
             h = 2 ^ (e - 1);
             q' = (if h < r \<or> (r = h \<and> odd q) then q + 1 else q);
             v = q' * 2 ^ e
         in if 2 ^ 1024 \<le> v then \<infinity> else enat v))"

section \<open>Job records\<close>

text \<open>
  The object literal built in \<open>extractJobsFromHtml\<close>. The field \<open>id\<close> is named \<open>job_id\<close>
  here, \<open>id\<close> being the identity function of HOL.
\<close>

record job =
  job_id :: string
  company :: string
  company_site :: string
  job_title :: string
  job_url :: string
  apply_url :: string
  location :: string
  experience :: string
  posted :: string
  posted_age_days :: "enat option"
  logo :: string
  company_size :: string
  funding_tags :: "string list"
  what_they_do :: string
  industries :: "string list"
  source :: string

text \<open>
  An entry of the index is a job record spread into an object with the two timestamps:
  \<open>{ ...job, created_at, updated_at }\<close>. \<open>created_at\<close> is optional, because the merge
  path copies \<open>existing.created_at\<close>, which is \<open>undefined\<close> when \<open>existing\<close> has no such
  property.
\<close>

record index_entry = job +
  created_at :: "string option"
  updated_at :: string

definition withTimestamps :: "job \<Rightarrow> string option \<Rightarrow> string \<Rightarrow> index_entry" where
  "withTimestamps j c u = job.extend j (index_entry.fields c u)"

section \<open>Helpers\<close>

text \<open>
  The white space of JavaScript, which \<open>\s\<close> in a regular expression and
  \<open>String.prototype.trim\<close> share: among the code units up to 255 these are tab, line feed,
  vertical tab, form feed, carriage return, space and the no-break space.
\<close>

definition isSpace :: "char \<Rightarrow> bool" where
  "isSpace c = (c \<in> set [CHR 0x09, CHR 0x0A, CHR 0x0B, CHR 0x0C, CHR 0x0D, CHR 0x20, CHR 0xA0])"

text \<open>\<open>\d\<close> and \<open>\w\<close>, which are ASCII classes.\<close>

definition isDigit :: "char \<Rightarrow> bool" where
  "isDigit c = (c \<in> set ''0123456789'')"

definition isWordChar :: "char \<Rightarrow> bool" where
  "isWordChar c =
     (c \<in> set ''abcdefghijklmnopqrstuvwxyzABCDEFGHIJKLMNOPQRSTUVWXYZ0123456789_'')"

text \<open>
  \<open>String.prototype.toLowerCase\<close> on the code units up to 255: the letters A to Z and
  the capital letters of Latin-1 (0xC0 to 0xDE, the multiplication sign 0xD7 apart) move
  up by 32.
\<close>

definition toLowerChar :: "char \<Rightarrow> char" where
  "toLowerChar c =
     (let n = (of_char c :: nat)
      in if (65 \<le> n \<and> n \<le> 90) \<or> (192 \<le> n \<and> n \<le> 222 \<and> n \<noteq> 215)
         then char_of (n + 32) else c)"

definition toLowerCase :: "string \<Rightarrow> string" where
  "toLowerCase s = map toLowerChar s"

text \<open>
  The folding of the flag \<open>i\<close> of a regular expression, as far as a pattern of ASCII
  letters can see it: only A to Z are identified with a to z (a code unit of 128 or more
  never folds to an ASCII one).
\<close>

definition asciiLower :: "char \<Rightarrow> char" where
  "asciiLower c =
     (let n = (of_char c :: nat) in if 65 \<le> n \<and> n \<le> 90 then char_of (n + 32) else c)"

text \<open>\<open>String.prototype.trim\<close>\<close>

definition trim :: "string \<Rightarrow> string" where
  "trim s = rev (dropWhile isSpace (rev (dropWhile isSpace s)))"

text \<open>\<open>s.replace(/\s+/g, " ")\<close>: every maximal run of white space becomes one space.\<close>

function collapseSpaces :: "string \<Rightarrow> string" where
  "collapseSpaces [] = []"
| "collapseSpaces (c # cs) =
     (if isSpace c then CHR 0x20 # collapseSpaces (dropWhile isSpace cs)
      else c # collapseSpaces cs)"
  by pat_completeness auto
termination
proof (relation "measure length")
  show "wf (measure length)" by simp
next
  fix c :: char and cs :: string
  have "length (dropWhile isSpace cs) \<le> length cs"
    by (rule length_dropWhile_le)
  then show "(dropWhile isSpace cs, c # cs) \<in> measure length" by simp
next
  fix c :: char and cs :: string
  show "(cs, c # cs) \<in> measure length" by simp
qed

text \<open>\<open>s ?? ""\<close>\<close>

definition orEmpty :: "string option \<Rightarrow> string" where
  "orEmpty s = (case s of None \<Rightarrow> [] | Some x \<Rightarrow> x)"

definition normalizeSpace :: "string option \<Rightarrow> string" where
  "normalizeSpace s = trim (collapseSpaces (orEmpty s))"

text \<open>\<open>jobUrl?.trim() || ""\<close>\<close>

definition stableIdFromJobUrl :: "string option \<Rightarrow> string" where
  "stableIdFromJobUrl jobUrl =
     (case jobUrl of None \<Rightarrow> [] | Some u \<Rightarrow> if trim u = [] then [] else trim u)"

text \<open>
  \<open>.replace(/\bNew\b$/i, "")\<close>: without the flag \<open>m\<close>, \<open>$\<close> is the end of the string, so
  the only place a match can be is the last three code units. They must read \<open>new\<close> in
  any case, and \<open>\b\<close> before them asks for the start of the string or a code unit that is
  no word character; \<open>\b\<close> after them holds at the end of the string.
\<close>

definition removeTrailingNew :: "string \<Rightarrow> string" where
  "removeTrailingNew s =
     (let n = length s
      in if 3 \<le> n \<and> map asciiLower (drop (n - 3) s) = ''new''
            \<and> (n = 3 \<or> \<not> isWordChar (s ! (n - 4)))
         then take (n - 3) s else s)"

text \<open>\<open>.replace(/tags\.new$/i, "")\<close>\<close>

definition removeTrailingTagsNew :: "string \<Rightarrow> string" where
  "removeTrailingTagsNew s =
     (let n = length s
      in if 8 \<le> n \<and> map asciiLower (drop (n - 8) s) = ''tags.new''
         then take (n - 8) s else s)"

definition stripTrailingNew :: "string option \<Rightarrow> string" where
  "stripTrailingNew s =
     normalizeSpace (Some (removeTrailingTagsNew (removeTrailingNew (orEmpty s))))"

text \<open>\<open>t.includes(p)\<close>\<close>

fun includesStr :: "string \<Rightarrow> string \<Rightarrow> bool" where
  "includesStr [] p = (p = [])"
| "includesStr (c # cs) p = (take (length p) (c # cs) = p \<or> includesStr cs p)"

text \<open>
  \<open>t.match(/(\d+)\s*day/)\<close> and its two siblings for \<open>hour\<close> and \<open>minute\<close>, which differ in
  the word only. \<open>matchHere\<close> is a match that starts at the first code unit: the longest
  run of digits, which must not be empty, then the longest run of white space, then the
  word. The greedy quantifiers have nothing else to try: a run of digits made shorter
  is followed by a digit, and a run of white space made shorter is followed by white
  space, neither of which starts the word. \<open>regexDigitsThen\<close> is the search for the
  leftmost start of a match and gives the captured group, the digits.
\<close>

definition matchHere :: "string \<Rightarrow> string \<Rightarrow> string option" where
  "matchHere word s =
     (let ds = takeWhile isDigit s;
          rest = dropWhile isSpace (dropWhile isDigit s)
      in if ds \<noteq> [] \<and> take (length word) rest = word then Some ds else None)"

fun regexDigitsThen :: "string \<Rightarrow> string \<Rightarrow> string option" where
  "regexDigitsThen word [] = None"
| "regexDigitsThen word (c # cs) =
     (case matchHere word (c # cs) of
        Some ds \<Rightarrow> Some ds
      | None \<Rightarrow> regexDigitsThen word cs)"

text \<open>\<open>Number\<close> of a run of decimal digits.\<close>

definition digitValue :: "char \<Rightarrow> nat" where
  "digitValue c = of_char c - 48"

definition decimalValue :: "string \<Rightarrow> nat" where
  "decimalValue ds = foldl (\<lambda>n c. 10 * n + digitValue c) 0 ds"

definition Number :: "string \<Rightarrow> enat" where
  "Number ds = toDouble (decimalValue ds)"

definition parsePostedAgeDays :: "string option \<Rightarrow> enat option" where
  "parsePostedAgeDays postedText =
     (let t = toLowerCase (normalizeSpace postedText)
      in if t = [] then None
         else if includesStr t ''today'' then Some 0
         else
           (case regexDigitsThen ''day'' t of
              Some d \<Rightarrow> Some (Number d)
            | None \<Rightarrow>
                (case regexDigitsThen ''hour'' t of
                   Some h \<Rightarrow> Some 0
                 | None \<Rightarrow>
                     (case regexDigitsThen ''minute'' t of
                        Some m \<Rightarrow> Some 0
                      | None \<Rightarrow> None))))"

section \<open>Fetch\<close>

text \<open>
  \<open>fetchWithRetry\<close> talks to the network. In the model the network is a function from the
  number of the attempt to what \<open>await fetch(url, ...)\<close> does then: it rejects (a network
  failure, or the abort that the timer of \<open>timeoutMs\<close> triggers), or it resolves with a
  response, whose \<open>text()\<close> gives the body or rejects in its turn. The call returns the
  text or throws, and the model returns with it the list of what it did: the requests it
  issued and the pauses it took, in order.
\<close>

datatype js_error = Error string

datatype response = Response (ok: bool) (status: nat) (body: "js_error + string")

datatype attempt = Rejects js_error | Resolves response

datatype effect = Request nat | Sleep nat

record fetch_config =
  timeoutMs :: nat
  retries :: nat
  retryBackoffMs :: nat
  userAgent :: string

text \<open>The \<open>try\<close> block of one attempt: \<open>Inl\<close> is what the \<open>catch\<close> clause receives.\<close>

definition tryAttempt :: "attempt \<Rightarrow> js_error + string" where
  "tryAttempt a =
     (case a of
        Rejects e \<Rightarrow> Inl e
      | Resolves res \<Rightarrow>
          if \<not> ok res then Inl (Error (''HTTP '' @ showNat (status res)))
          else body res)"

text \<open>
  The \<open>for\<close> loop, from the attempt it is about to make. \<open>lastErr\<close> starts as \<open>null\<close>,
  which is \<open>None\<close>; the result \<open>Inl lastErr\<close> is \<open>throw lastErr\<close>.
\<close>

function fetchLoop ::
  "(nat \<Rightarrow> attempt) \<Rightarrow> fetch_config \<Rightarrow> nat \<Rightarrow> js_error option \<Rightarrow> effect list
     \<Rightarrow> (js_error option + string) \<times> effect list" where
  "fetchLoop network cfg attempt lastErr done =
     (if attempt \<le> retries cfg then
        (case tryAttempt (network attempt) of
           Inr html \<Rightarrow> (Inr html, done @ [Request attempt])
         | Inl e \<Rightarrow>
             fetchLoop network cfg (attempt + 1) (Some e)
               (done @ [Request attempt]
                  @ (if attempt < retries cfg then [Sleep (retryBackoffMs cfg * attempt)]
                     else [])))
      else (Inl lastErr, done))"
  by pat_completeness auto
termination
  by (relation "measure (\<lambda>(network, cfg, attempt, lastErr, done). Suc (retries cfg) - attempt)")
    auto

declare fetchLoop.simps [simp del]

definition fetchWithRetry ::
  "(nat \<Rightarrow> attempt) \<Rightarrow> fetch_config \<Rightarrow> (js_error option + string) \<times> effect list" where
  "fetchWithRetry network cfg = fetchLoop network cfg 1 None []"

section \<open>Parse\<close>

text \<open>
  \<open>extractJobsFromHtml\<close> reads the page through cheerio. The parser and the selectors
  are not modelled: a card is given by what the queries of the loop body return on it.
  \<open>attr\<close> of an empty selection is \<open>undefined\<close>, here \<open>None\<close>; \<open>text()\<close> of an empty
  selection is the empty string. The fields are, in the order of the code: the \<open>href\<close> of
  the first job link (\<open>jobA\<close>), the text and the \<open>href\<close> of the first company link
  (\<open>companyA\<close>), the text of the first \<open>#job-title\<close>, the \<open>href\<close> of the apply button, the
  texts of the parents of the three icons, the \<open>src\<close> of the first image, the text of the
  first \<open>#company-size-tags\<close>, the texts of the \<open>#funding-tags\<close> elements, the text of
  the parents of the \<open>what they do\<close> headers, and the texts of the \<open>#industry-tags\<close>
  elements.
\<close>

record card =
  jobA_href :: "string option"
  companyA_text :: string
  companyA_href :: "string option"
  job_title_text :: string
  apply_button_href :: "string option"
  map_marker_text :: string
  briefcase_text :: string
  clock_text :: string
  img_src :: "string option"
  company_size_text :: string
  funding_tags_texts :: "string list"
  what_they_do_text :: string
  industry_tags_texts :: "string list"

text \<open>
  \<open>.replace(/what they do:\s*/i, "")\<close>: the leftmost occurrence of the label, in any
  case, goes with the white space that follows it.
\<close>

fun removeLabel :: "string \<Rightarrow> string" where
  "removeLabel [] = []"
| "removeLabel (c # cs) =
     (if map asciiLower (take 13 (c # cs)) = ''what they do:''
      then dropWhile isSpace (drop 13 (c # cs))
      else c # removeLabel cs)"

text \<open>\<open>.map((s) => normalizeSpace($(s).text())).filter(Boolean)\<close>\<close>

definition tagTexts :: "string list \<Rightarrow> string list" where
  "tagTexts ts = filter (\<lambda>s. s \<noteq> []) (map (\<lambda>s. normalizeSpace (Some s)) ts)"

text \<open>
  The body of \<open>cards.each\<close> on one card: \<open>None\<close> is the early \<open>return\<close> that pushes
  nothing, \<open>Some job\<close> is \<open>jobs.push(job)\<close>.
\<close>

definition extractCard :: "card \<Rightarrow> string \<Rightarrow> job option" where
  "extractCard c sourceUrl =
     (let jobUrl = normalizeSpace (jobA_href c)
      in if jobUrl = [] then None
         else Some
           \<lparr>job_id = stableIdFromJobUrl (Some jobUrl),
            company = stripTrailingNew (Some (companyA_text c)),
            company_site = normalizeSpace (companyA_href c),
            job_title = stripTrailingNew (Some (job_title_text c)),
            job_url = jobUrl,
            apply_url =
              (if normalizeSpace (apply_button_href c) = [] then jobUrl
               else normalizeSpace (apply_button_href c)),
            location = normalizeSpace (Some (map_marker_text c)),
            experience = normalizeSpace (Some (briefcase_text c)),
            posted = normalizeSpace (Some (clock_text c)),
            posted_age_days =
              parsePostedAgeDays (Some (normalizeSpace (Some (clock_text c)))),
            logo = normalizeSpace (img_src c),
            company_size = normalizeSpace (Some (company_size_text c)),
            funding_tags = tagTexts (funding_tags_texts c),
            what_they_do = normalizeSpace (Some (removeLabel (what_they_do_text c))),
            industries = tagTexts (industry_tags_texts c),
            source = sourceUrl\<rparr>)"

text \<open>
  \<open>jobs.filter((j) => j.id && !seen.has(j.id) && seen.add(j.id))\<close>, with the ids seen so
  far as a list.
\<close>

fun filterFirstSeen :: "string list \<Rightarrow> job list \<Rightarrow> job list" where
  "filterFirstSeen seen [] = []"
| "filterFirstSeen seen (j # js) =
     (if job_id j \<noteq> [] \<and> job_id j \<notin> set seen
      then j # filterFirstSeen (job_id j # seen) js
      else filterFirstSeen seen js)"

definition extractJobsFromHtml :: "card list \<Rightarrow> string \<Rightarrow> job list" where
  "extractJobsFromHtml cards sourceUrl =
     filterFirstSeen [] (List.map_filter (\<lambda>c. extractCard c sourceUrl) cards)"

section \<open>Index\<close>

text \<open>
  The index is a plain JavaScript object used as a dictionary: its own properties are a
  map from ids to entries. A property read \<open>indexObj[k]\<close> that finds no own property
  goes on to \<open>Object.prototype\<close>, whose members are the names below; each of them is a
  function or an object, hence truthy, with no enumerable own property and no
  \<open>created_at\<close>.
\<close>

type_synonym index = "string \<rightharpoonup> index_entry"

definition objectPrototypeNames :: "string list" where
  "objectPrototypeNames =
     [''__proto__'', ''constructor'', ''hasOwnProperty'', ''isPrototypeOf'',
      ''propertyIsEnumerable'', ''toLocaleString'', ''toString'', ''valueOf'',
      ''__defineGetter__'', ''__defineSetter__'', ''__lookupGetter__'',
      ''__lookupSetter__'']"

datatype property = Undefined | OwnEntry index_entry | Inherited

definition getProperty :: "index \<Rightarrow> string \<Rightarrow> property" where
  "getProperty indexObj k =
     (case indexObj k of
        Some e \<Rightarrow> OwnEntry e
      | None \<Rightarrow> if k \<in> set objectPrototypeNames then Inherited else Undefined)"

text \<open>
  The assignment \<open>indexObj[k] = v\<close> creates or overwrites the own property \<open>k\<close>. The one
  exception is \<open>__proto__\<close> when it is not an own property: the inherited setter then
  replaces the prototype of the object and adds no property. (Lookups through a replaced
  prototype are not followed further by this model.)
\<close>

definition setProperty :: "index \<Rightarrow> string \<Rightarrow> index_entry \<Rightarrow> index" where
  "setProperty indexObj k v =
     (if k = ''__proto__'' \<and> indexObj k = None then indexObj else indexObj(k \<mapsto> v))"

record upsert_result =
  isNew :: bool
  changed :: bool

text \<open>
  \<open>upsertIndex\<close> mutates \<open>indexObj\<close> and returns the flags; the model returns the new index
  with them. \<open>!existing\<close> holds exactly when the read gave \<open>undefined\<close>.
\<close>

definition upsertIndex :: "index \<Rightarrow> job \<Rightarrow> string \<Rightarrow> index \<times> upsert_result" where
  "upsertIndex indexObj job ts =
     (case getProperty indexObj (job_id job) of
        Undefined \<Rightarrow>
          (setProperty indexObj (job_id job) (withTimestamps job (Some ts) ts),
           \<lparr>isNew = True, changed = True\<rparr>)
      | OwnEntry existing \<Rightarrow>
          (setProperty indexObj (job_id job) (withTimestamps job (created_at existing) ts),
           \<lparr>isNew = False, changed = True\<rparr>)
      | Inherited \<Rightarrow>
          (setProperty indexObj (job_id job) (withTimestamps job None ts),
           \<lparr>isNew = False, changed = True\<rparr>))"

text \<open>The loop of \<open>main\<close> over one page: \<open>for (const job of jobs) upsertIndex(index, job, ts)\<close>.\<close>

fun upsertAll :: "index \<Rightarrow> job list \<Rightarrow> string \<Rightarrow> index" where
  "upsertAll indexObj [] ts = indexObj"
| "upsertAll indexObj (job # jobs) ts = upsertAll (fst (upsertIndex indexObj job ts)) jobs ts"

text \<open>Any sequence of upserts, each with its own timestamp.\<close>

fun upsertSeq :: "index \<Rightarrow> (job \<times> string) list \<Rightarrow> index" where
  "upsertSeq indexObj [] = indexObj"
| "upsertSeq indexObj ((job, ts) # rest) = upsertSeq (fst (upsertIndex indexObj job ts)) rest"

section \<open>Stop logic\<close>

record stop_info =
  stop :: bool
  reason :: string

text \<open>\<open>typeof j.posted_age_days === "number" && j.posted_age_days <= 1\<close>\<close>

definition isRecent :: "job \<Rightarrow> bool" where
  "isRecent j = (case posted_age_days j of Some n \<Rightarrow> n \<le> 1 | None \<Rightarrow> False)"

text \<open>\<open>Math.max(...ages)\<close>; \<open>None\<close> is the \<open>-Infinity\<close> it returns for no argument.\<close>

fun mathMax :: "enat list \<Rightarrow> enat option" where
  "mathMax [] = None"
| "mathMax (x # xs) = Some (fold max xs x)"

definition knownAges :: "job list \<Rightarrow> enat list" where
  "knownAges jobs = [n. Some n \<leftarrow> map posted_age_days jobs]"

definition computeStopForMode ::
  "(rat \<Rightarrow> string) \<Rightarrow> string \<Rightarrow> job list \<Rightarrow> js_number \<Rightarrow> stop_info" where
  "computeStopForMode toStringOther mode jobs maxAgeDays =
     (if length jobs = 0 then \<lparr>stop = True, reason = ''no_cards''\<rparr>
      else if mode = ''today'' then
        (let hasRecent = list_ex isRecent jobs
         in if \<not> hasRecent then \<lparr>stop = True, reason = ''no_recent_<=_1_day_on_page''\<rparr>
            else \<lparr>stop = False, reason = ''''\<rparr>)
      else
        (let ages = knownAges jobs
         in if length ages = 0 then \<lparr>stop = False, reason = ''''\<rparr>
            else
              (case mathMax ages of
                 None \<Rightarrow> \<lparr>stop = False, reason = ''''\<rparr>
               | Some oldest \<Rightarrow>
                   if exceeds oldest maxAgeDays
                   then \<lparr>stop = True,
                         reason = ''older_than_'' @ numberToString toStringOther maxAgeDays\<rparr>
                   else \<lparr>stop = False, reason = ''''\<rparr>)))"

text \<open>A record of which only the age matters, for the examples of the stop policy.\<close>

definition jobOfAge :: "enat option \<Rightarrow> job" where
  "jobOfAge a =
     \<lparr>job_id = ''u'', company = '''', company_site = '''', job_title = '''', job_url = ''u'',
      apply_url = ''u'', location = '''', experience = '''', posted = '''',
      posted_age_days = a, logo = '''', company_size = '''', funding_tags = [],
      what_they_do = '''', industries = [], source = ''''\<rparr>"

section \<open>CSV\<close>

text \<open>
  \<open>String(v ?? "")\<close> on a string or an absent value, then the test \<open>/[",\n]/\<close> and the
  wrapping in double quotes with every double quote of the value written twice. The
  double quote is the code unit 0x22 and the newline 0x0A.
\<close>

definition needsQuoting :: "string \<Rightarrow> bool" where
  "needsQuoting s = (\<exists>c \<in> set s. c = CHR 0x22 \<or> c = CHR '','' \<or> c = CHR 0x0A)"

definition doubleQuotes :: "string \<Rightarrow> string" where
  "doubleQuotes s = concat (map (\<lambda>c. if c = CHR 0x22 then [CHR 0x22, CHR 0x22] else [c]) s)"

definition csvEscape :: "string option \<Rightarrow> string" where
  "csvEscape v =
     (let s = orEmpty v
      in if needsQuoting s then [CHR 0x22] @ doubleQuotes s @ [CHR 0x22] else s)"

text \<open>
  Modelled from the spec: the \<open>standard delimited-format reparse\<close> of the round-trip
  property. The repository writes the table and has no reader for it. The reader here is
  the usual one for the dialect that \<open>buildCsvRowsFromIndex\<close> writes (comma between
  cells, \<open>\n\<close> between rows, quoting as in RFC 4180): a cell that starts with a double
  quote runs to the closing quote, two double quotes inside it standing for one; any
  other cell runs to the next comma or newline. \<open>readCell\<close> gives the value of the first
  cell of its input and the input that follows the cell.
\<close>

fun readQuoted :: "string \<Rightarrow> string \<times> string" where
  "readQuoted [] = ([], [])"
| "readQuoted [c] = (if c = CHR 0x22 then ([], []) else ([c], []))"
| "readQuoted (c # d # ds) =
     (if c = CHR 0x22 then
        (if d = CHR 0x22 then (case readQuoted ds of (v, r) \<Rightarrow> (CHR 0x22 # v, r))
         else ([], d # ds))
      else (case readQuoted (d # ds) of (v, r) \<Rightarrow> (c # v, r)))"

definition isSeparator :: "char \<Rightarrow> bool" where
  "isSeparator c = (c = CHR '','' \<or> c = CHR 0x0A)"

definition readCell :: "string \<Rightarrow> string \<times> string" where
  "readCell s =
     (case s of
        [] \<Rightarrow> ([], [])
      | c # cs \<Rightarrow>
          if c = CHR 0x22 then readQuoted cs
          else (takeWhile (\<lambda>x. \<not> isSeparator x) s, dropWhile (\<lambda>x. \<not> isSeparator x) s))"

section \<open>Vocabulary of the statements\<close>

text \<open>
  The words of the claims about the posted-age parser, stated on lists and not taken from
  the code. \<open>containsText p t\<close>: the text \<open>t\<close> contains \<open>p\<close>. \<open>matchesForm word t pre ds\<close>:
  after the prefix \<open>pre\<close>, \<open>t\<close> reads a non-empty run of digits \<open>ds\<close>, then white space
  or none, then \<open>word\<close>, as in \<open>3 days\<close>. \<open>hasForm\<close>: there is such a place in \<open>t\<close>.
  \<open>firstForm word t ds\<close>: \<open>ds\<close> is the run of digits of the leftmost such place.
\<close>

definition containsText :: "string \<Rightarrow> string \<Rightarrow> bool" where
  "containsText p t = (\<exists>pre post. t = pre @ p @ post)"

definition matchesForm :: "string \<Rightarrow> string \<Rightarrow> string \<Rightarrow> string \<Rightarrow> bool" where
  "matchesForm word t pre ds =
     (\<exists>ws post. t = pre @ ds @ ws @ word @ post \<and> ds \<noteq> []
        \<and> (\<forall>c \<in> set ds. isDigit c) \<and> (\<forall>c \<in> set ws. isSpace c))"

definition hasForm :: "string \<Rightarrow> string \<Rightarrow> bool" where
  "hasForm word t = (\<exists>pre ds. matchesForm word t pre ds)"

definition firstForm :: "string \<Rightarrow> string \<Rightarrow> string \<Rightarrow> bool" where
  "firstForm word t ds =
     (\<exists>pre. matchesForm word t pre ds
        \<and> (\<forall>pre' ds'. matchesForm word t pre' ds' \<longrightarrow> length pre \<le> length pre'))"

section \<open>Fixtures\<close>

text \<open>A card of which only the job link is present, for the examples of extraction.\<close>

definition cardOfHref :: "string option \<Rightarrow> card" where
  "cardOfHref h =
     \<lparr>jobA_href = h, companyA_text = '''', companyA_href = None, job_title_text = '''',
      apply_button_href = None, map_marker_text = '''', briefcase_text = '''',
      clock_text = '''', img_src = None, company_size_text = '''',
      funding_tags_texts = [], what_they_do_text = '''', industry_tags_texts = []\<rparr>"

section \<open>Properties of the stop logic\<close>




lemma isRecent_iff: "isRecent j = (\<exists>n. posted_age_days j = Some n \<and> n \<le> 1)"
  by (cases "posted_age_days j") (simp_all add: isRecent_def)













text \<open>
  Claim C3. In mode \<open>today\<close>, for every list of records, the empty one included, the
  policy continues exactly when some record of the page has a known age of at most one
  day, and stops otherwise. Records of ages 2 and 5 give stop; a record of age 0 gives
  continue.
\<close>

theorem today_policy:
  "stop (computeStopForMode toStringOther ''today'' jobs maxAgeDays)
     = (\<not> (\<exists>j \<in> set jobs. \<exists>n. posted_age_days j = Some n \<and> n \<le> 1))
   \<and> stop (computeStopForMode toStringOther ''today'' [] maxAgeDays)
   \<and> stop (computeStopForMode toStringOther ''today''
        [jobOfAge (Some 2), jobOfAge (Some 5)] maxAgeDays)
   \<and> \<not> stop (computeStopForMode toStringOther ''today'' [jobOfAge (Some 0)] maxAgeDays)"
proof -
  have general: "stop (computeStopForMode toStringOther ''today'' js maxAgeDays)
     = (\<not> (\<exists>j \<in> set js. \<exists>n. posted_age_days j = Some n \<and> n \<le> 1))" for js
    by (cases js) (auto simp: computeStopForMode_def list_ex_iff isRecent_iff Let_def)
  have ages: "posted_age_days (jobOfAge a) = a" for a
    by (simp add: jobOfAge_def)
  show ?thesis
    unfolding general by (simp add: ages)
qed

theorem today_policy_witness:
  "stop (computeStopForMode (\<lambda>q. '''') ''today'' [jobOfAge (Some 3)] (Finite 180))
   \<and> \<not> stop (computeStopForMode (\<lambda>q. '''') ''today''
          [jobOfAge None, jobOfAge (Some 1)] (Finite 180))"
proof -
  have ages: "posted_age_days (jobOfAge a) = a" for a
    by (simp add: jobOfAge_def)
  have a: "stop (computeStopForMode (\<lambda>q. '''') ''today'' [jobOfAge (Some 3)] (Finite 180))"
    using today_policy [of "\<lambda>q. ''''" "[jobOfAge (Some 3)]" "Finite 180"] by (simp add: ages)
  have b: "\<not> stop (computeStopForMode (\<lambda>q. '''') ''today''
              [jobOfAge None, jobOfAge (Some 1)] (Finite 180))"
    using today_policy [of "\<lambda>q. ''''" "[jobOfAge None, jobOfAge (Some 1)]" "Finite 180"]
    by (simp add: ages)
  from a b show ?thesis by simp
qed




section \<open>Properties of the index\<close>

lemma withTimestamps_job [simp]: "job.truncate (withTimestamps j c u) = j"
  by (simp add: withTimestamps_def job.defs index_entry.defs)

lemma withTimestamps_created [simp]: "created_at (withTimestamps j c u) = c"
  by (simp add: withTimestamps_def job.defs index_entry.defs)

lemma withTimestamps_updated [simp]: "updated_at (withTimestamps j c u) = u"
  by (simp add: withTimestamps_def job.defs index_entry.defs)

lemma withTimestamps_id [simp]: "job_id (withTimestamps j c u) = job_id j"
  by (simp add: withTimestamps_def job.defs index_entry.defs)

lemma setProperty_other: "k' \<noteq> k \<Longrightarrow> setProperty indexObj k v k' = indexObj k'"
  by (simp add: setProperty_def)

lemma setProperty_dom: "dom indexObj \<subseteq> dom (setProperty indexObj k v)"
  by (auto simp: setProperty_def)

lemma upsertIndex_other:
  "k \<noteq> job_id job \<Longrightarrow> fst (upsertIndex indexObj job ts) k = indexObj k"
  by (simp add: upsertIndex_def setProperty_other split: property.splits)

lemma upsertIndex_dom: "dom indexObj \<subseteq> dom (fst (upsertIndex indexObj job ts))"
  by (simp add: upsertIndex_def setProperty_dom split: property.splits)

lemma upsertSeq_dom: "dom indexObj \<subseteq> dom (upsertSeq indexObj obs)"
proof (induction obs arbitrary: indexObj)
  case Nil
  show ?case by simp
next
  case (Cons ob obs)
  obtain job ts where ob: "ob = (job, ts)" by (cases ob)
  have "dom indexObj \<subseteq> dom (fst (upsertIndex indexObj job ts))"
    by (rule upsertIndex_dom)
  also have "\<dots> \<subseteq> dom (upsertSeq (fst (upsertIndex indexObj job ts)) obs)"
    by (rule Cons.IH)
  finally show ?case by (simp add: ob)
qed

lemma upsertSeq_other:
  "k \<notin> job_id ` fst ` set obs \<Longrightarrow> upsertSeq indexObj obs k = indexObj k"
proof (induction obs arbitrary: indexObj)
  case Nil
  show ?case by simp
next
  case (Cons ob obs)
  obtain job ts where ob: "ob = (job, ts)" by (cases ob)
  from Cons.prems ob have ne: "k \<noteq> job_id job" and rest: "k \<notin> job_id ` fst ` set obs"
    by auto
  show ?case
    using Cons.IH [OF rest] upsertIndex_other [OF ne] by (simp add: ob)
qed

text \<open>
  What \<open>upsertIndex\<close> does for an id that is not a member name of \<open>Object.prototype\<close>:
  the insert path, the merge path, and two observations of one id in a row.
\<close>

lemma upsert_unseen:
  assumes "indexObj (job_id job) = None" and "job_id job \<notin> set objectPrototypeNames"
  shows "upsertIndex indexObj job ts
           = (indexObj(job_id job \<mapsto> withTimestamps job (Some ts) ts),
              \<lparr>isNew = True, changed = True\<rparr>)"
  using assms
  by (auto simp: upsertIndex_def getProperty_def setProperty_def objectPrototypeNames_def)

lemma upsert_seen:
  assumes "indexObj (job_id job) = Some existing"
  shows "upsertIndex indexObj job ts
           = (indexObj(job_id job \<mapsto> withTimestamps job (created_at existing) ts),
              \<lparr>isNew = False, changed = True\<rparr>)"
  using assms by (auto simp: upsertIndex_def getProperty_def setProperty_def)

lemma upsert_twice:
  assumes unseen: "indexObj (job_id j1) = None"
    and own: "job_id j1 \<notin> set objectPrototypeNames"
    and same: "job_id j2 = job_id j1"
  shows "fst (upsertIndex (fst (upsertIndex indexObj j1 t1)) j2 t2) (job_id j1)
           = Some (withTimestamps j2 (Some t1) t2)"
proof -
  let ?i1 = "indexObj(job_id j1 \<mapsto> withTimestamps j1 (Some t1) t1)"
  have first: "fst (upsertIndex indexObj j1 t1) = ?i1"
    using unseen own by (simp add: upsert_unseen)
  have "?i1 (job_id j2) = Some (withTimestamps j1 (Some t1) t1)"
    by (simp add: same)
  then have "fst (upsertIndex ?i1 j2 t2)
               = ?i1(job_id j2 \<mapsto> withTimestamps j2 (created_at (withTimestamps j1 (Some t1) t1)) t2)"
    by (simp add: upsert_seen)
  then show ?thesis
    by (simp add: first same)
qed

text \<open>
  Claim C2, at an input where the code departs from it. The index is empty and the
  record's id is \<open>constructor\<close>, which no upsert has seen. \<open>indexObj["constructor"]\<close> reads
  the inherited \<open>Object.prototype.constructor\<close>, a function, so \<open>!existing\<close> is false and
  the merge path runs: the call returns \<open>isNew = false\<close> and stores an entry whose
  \<open>created_at\<close> is \<open>existing.created_at\<close>, that is \<open>undefined\<close>, where the claim has
  \<open>isNew = true\<close> and \<open>created_at = updated_at = observedAt\<close>.
\<close>

theorem upsert_inherited_name:
  "upsertIndex Map.empty (jobOfAge None \<lparr>job_id := ''constructor''\<rparr>) ts
     = ([''constructor'' \<mapsto> withTimestamps (jobOfAge None \<lparr>job_id := ''constructor''\<rparr>) None ts],
        \<lparr>isNew = False, changed = True\<rparr>)
   \<and> created_at (withTimestamps (jobOfAge None \<lparr>job_id := ''constructor''\<rparr>) None ts) \<noteq> Some ts"
  by (simp add: upsertIndex_def getProperty_def setProperty_def objectPrototypeNames_def
      jobOfAge_def)

text \<open>
  Claim C9. For every index, record and timestamp, \<open>upsertIndex\<close> leaves every entry whose
  key differs from the record's id as it was, and removes no entry: the keys before the
  call are keys after it. Across any sequence of upserts the key set only grows, and an
  entry whose key is the id of none of the upserted records is unchanged.
\<close>

theorem upsert_frame:
  "(\<forall>k. k \<noteq> job_id job \<longrightarrow> fst (upsertIndex indexObj job ts) k = indexObj k)
   \<and> dom indexObj \<subseteq> dom (fst (upsertIndex indexObj job ts))
   \<and> dom indexObj \<subseteq> dom (upsertSeq indexObj obs)
   \<and> (\<forall>k. k \<notin> job_id ` fst ` set obs \<longrightarrow> upsertSeq indexObj obs k = indexObj k)"
proof (intro conjI allI impI)
  fix k assume "k \<noteq> job_id job"
  then show "fst (upsertIndex indexObj job ts) k = indexObj k" by (rule upsertIndex_other)
next
  show "dom indexObj \<subseteq> dom (fst (upsertIndex indexObj job ts))" by (rule upsertIndex_dom)
next
  show "dom indexObj \<subseteq> dom (upsertSeq indexObj obs)" by (rule upsertSeq_dom)
next
  fix k assume "k \<notin> job_id ` fst ` set obs"
  then show "upsertSeq indexObj obs k = indexObj k" by (rule upsertSeq_other)
qed

theorem upsert_frame_witness:
  "fst (upsertIndex [''a'' \<mapsto> withTimestamps (jobOfAge None \<lparr>job_id := ''a''\<rparr>) (Some ''t0'') ''t0'']
          (jobOfAge (Some 1)) ''t1'') ''a''
     = Some (withTimestamps (jobOfAge None \<lparr>job_id := ''a''\<rparr>) (Some ''t0'') ''t0'')
   \<and> ''a'' \<in> dom (upsertSeq
          [''a'' \<mapsto> withTimestamps (jobOfAge None \<lparr>job_id := ''a''\<rparr>) (Some ''t0'') ''t0'']
          [(jobOfAge (Some 1), ''t1''), (jobOfAge None \<lparr>job_id := ''a''\<rparr>, ''t2'')])"
proof -
  let ?e = "withTimestamps (jobOfAge None \<lparr>job_id := ''a''\<rparr>) (Some ''t0'') ''t0''"
  let ?obs = "[(jobOfAge (Some 1), ''t1''), (jobOfAge None \<lparr>job_id := ''a''\<rparr>, ''t2'')]"
  note frame = upsert_frame [of "jobOfAge (Some 1)" "[''a'' \<mapsto> ?e]" "''t1''" ?obs]
  have ne: "''a'' \<noteq> job_id (jobOfAge (Some 1))"
    by (simp add: jobOfAge_def)
  from frame have "\<forall>k. k \<noteq> job_id (jobOfAge (Some 1)) \<longrightarrow>
      fst (upsertIndex [''a'' \<mapsto> ?e] (jobOfAge (Some 1)) ''t1'') k = [''a'' \<mapsto> ?e] k"
    by (rule conjunct1)
  then have "''a'' \<noteq> job_id (jobOfAge (Some 1)) \<longrightarrow>
      fst (upsertIndex [''a'' \<mapsto> ?e] (jobOfAge (Some 1)) ''t1'') ''a'' = [''a'' \<mapsto> ?e] ''a''"
    by (rule spec)
  then have "fst (upsertIndex [''a'' \<mapsto> ?e] (jobOfAge (Some 1)) ''t1'') ''a'' = [''a'' \<mapsto> ?e] ''a''"
    using ne by (rule mp)
  then have a: "fst (upsertIndex [''a'' \<mapsto> ?e] (jobOfAge (Some 1)) ''t1'') ''a'' = Some ?e"
    by simp
  from frame have sub: "dom [''a'' \<mapsto> ?e] \<subseteq> dom (upsertSeq [''a'' \<mapsto> ?e] ?obs)"
    by (elim conjE)
  have "''a'' \<in> dom [''a'' \<mapsto> ?e]" by simp
  with sub have b: "''a'' \<in> dom (upsertSeq [''a'' \<mapsto> ?e] ?obs)"
    by (rule subsetD)
  from a b show ?thesis by (rule conjI)
qed

section \<open>Properties of the helpers\<close>

lemma all_dropWhile: "(\<forall>x \<in> set (dropWhile P xs). P x) = (\<forall>x \<in> set xs. P x)"
  by (induction xs) auto

lemma trim_strip: "trim s = strip_while isSpace (dropWhile isSpace s)"
  by (simp add: trim_def strip_while_def)

lemma trim_empty_iff: "(trim s = []) = (\<forall>c \<in> set s. isSpace c)"
  by (simp add: trim_strip all_dropWhile)

lemma trim_idem: "trim (trim s) = trim s"
  by (simp add: trim_strip dropWhile_strip_while_commute)

lemma isSpace_space: "isSpace (CHR 0x20)"
  by (simp add: isSpace_def)

lemma collapseSpaces_all_space:
  "(\<forall>c \<in> set (collapseSpaces s). isSpace c) = (\<forall>c \<in> set s. isSpace c)"
proof (induction s rule: collapseSpaces.induct)
  case 1
  show ?case by simp
next
  case (2 c cs)
  show ?case
  proof (cases "isSpace c")
    case True
    with 2 show ?thesis by (simp add: isSpace_space all_dropWhile)
  next
    case False
    then show ?thesis by simp
  qed
qed

lemma normalizeSpace_empty_iff:
  "(normalizeSpace (Some s) = []) = (\<forall>c \<in> set s. isSpace c)"
  by (simp add: normalizeSpace_def orEmpty_def trim_empty_iff collapseSpaces_all_space)

lemma normalizeSpace_None: "normalizeSpace None = []"
  by (simp add: normalizeSpace_def orEmpty_def trim_def)

lemma trim_normalizeSpace: "trim (normalizeSpace s) = normalizeSpace s"
  by (simp add: normalizeSpace_def trim_idem)

lemma stableId_trim: "stableIdFromJobUrl (Some u) = trim u"
  by (simp add: stableIdFromJobUrl_def)

lemma stableId_normalized: "stableIdFromJobUrl (Some (normalizeSpace s)) = normalizeSpace s"
  by (simp add: stableId_trim trim_normalizeSpace)

lemma collapse_no_space: "\<forall>c \<in> set s. \<not> isSpace c \<Longrightarrow> collapseSpaces (s @ r) = s @ collapseSpaces r"
  by (induction s) simp_all

lemma collapse_spaces_then:
  assumes "p \<noteq> []" "\<forall>c \<in> set p. isSpace c"
  shows "collapseSpaces (p @ r) = CHR 0x20 # collapseSpaces (dropWhile isSpace r)"
proof (cases p)
  case Nil with assms show ?thesis by simp
next
  case (Cons c cs)
  with assms have "isSpace c" "\<forall>x \<in> set cs. isSpace x" by auto
  then show ?thesis by (simp add: Cons)
qed

lemma trim_split:
  obtains p q where "s = p @ trim s @ q" "\<forall>c \<in> set p. isSpace c" "\<forall>c \<in> set q. isSpace c"
proof -
  obtain ys zs where a: "strip_while isSpace (dropWhile isSpace s) = ys" "\<forall>x \<in> set zs. isSpace x"
    "dropWhile isSpace s = ys @ zs"
    by (rule split_strip_while_append)
  have "s = takeWhile isSpace s @ dropWhile isSpace s" by simp
  then have "s = takeWhile isSpace s @ trim s @ zs"
    using a by (simp add: trim_strip)
  moreover have "\<forall>c \<in> set (takeWhile isSpace s). isSpace c"
    by (auto dest: set_takeWhileD)
  ultimately show thesis using a(2) that by blast
qed

lemma strip_no_space:
  assumes "\<forall>c \<in> set core. \<not> P c"
  shows "strip_while P core = core"
  using assms by (cases core rule: rev_cases) simp_all

lemma strip_core:
  assumes "\<forall>c \<in> set core. \<not> P c" and "\<forall>c \<in> set q. P c"
  shows "strip_while P (core @ q) = core"
  using assms(2)
proof (induction q rule: rev_induct)
  case Nil
  show ?case using assms(1) by (simp add: strip_no_space)
next
  case (snoc x xs)
  then have "P x" and "strip_while P (core @ xs) = core" by simp_all
  then show ?case by (simp flip: append_assoc)
qed

lemma trim_core:
  assumes "\<forall>c \<in> set core. \<not> isSpace c" and "\<forall>c \<in> set q. isSpace c"
  shows "trim (core @ q) = core"
proof -
  have d: "dropWhile isSpace (core @ q) = (if core = [] then [] else core @ q)"
    using assms by (cases core) auto
  show ?thesis
    using strip_core [OF assms] by (simp add: trim_strip d)
qed

lemma trim_space_core:
  assumes "\<forall>c \<in> set core. \<not> isSpace c" and "\<forall>c \<in> set q. isSpace c"
  shows "trim (CHR 0x20 # core @ q) = core"
proof -
  have "trim (CHR 0x20 # core @ q) = trim (core @ q)"
    by (simp add: trim_def isSpace_space)
  then show ?thesis using trim_core [OF assms] by simp
qed

lemma normalizeSpace_no_inner_space:
  assumes "\<forall>c \<in> set (trim s). \<not> isSpace c"
  shows "normalizeSpace (Some s) = trim s"
proof -
  define core where "core = trim s"
  obtain p q where s: "s = p @ core @ q" and p: "\<forall>c \<in> set p. isSpace c"
    and q: "\<forall>c \<in> set q. isSpace c"
    unfolding core_def by (rule trim_split)
  have core: "\<forall>c \<in> set core. \<not> isSpace c"
    using assms by (simp add: core_def)
  have q': "\<forall>c \<in> set (collapseSpaces q). isSpace c"
    using q by (simp add: collapseSpaces_all_space)
  have mid: "collapseSpaces (core @ q) = core @ collapseSpaces q"
    using core by (rule collapse_no_space)
  have "trim (collapseSpaces (p @ core @ q)) = core"
  proof (cases "p = []")
    case True
    then show ?thesis using mid trim_core [OF core q'] by simp
  next
    case False
    have dw: "dropWhile isSpace (core @ q) = (if core = [] then [] else core @ q)"
      using core q by (cases core) auto
    have "collapseSpaces (p @ core @ q)
            = CHR 0x20 # collapseSpaces (dropWhile isSpace (core @ q))"
      using False p by (rule collapse_spaces_then)
    also have "\<dots> = CHR 0x20 # core @ (if core = [] then [] else collapseSpaces q)"
      using mid by (simp add: dw)
    finally have "trim (collapseSpaces (p @ core @ q))
                    = trim (CHR 0x20 # core @ (if core = [] then [] else collapseSpaces q))"
      by simp
    also have "\<dots> = core"
      using q' by (intro trim_space_core [OF core]) simp
    finally show ?thesis .
  qed
  with s have "trim (collapseSpaces s) = core" by simp
  then show ?thesis by (simp add: normalizeSpace_def orEmpty_def core_def)
qed

section \<open>Properties of the extraction\<close>

lemma extractCard_Some:
  assumes "extractCard c sourceUrl = Some j"
  shows "normalizeSpace (jobA_href c) \<noteq> []"
    and "j = \<lparr>job_id = stableIdFromJobUrl (Some (normalizeSpace (jobA_href c))),
            company = stripTrailingNew (Some (companyA_text c)),
            company_site = normalizeSpace (companyA_href c),
            job_title = stripTrailingNew (Some (job_title_text c)),
            job_url = normalizeSpace (jobA_href c),
            apply_url =
              (if normalizeSpace (apply_button_href c) = [] then normalizeSpace (jobA_href c)
               else normalizeSpace (apply_button_href c)),
            location = normalizeSpace (Some (map_marker_text c)),
            experience = normalizeSpace (Some (briefcase_text c)),
            posted = normalizeSpace (Some (clock_text c)),
            posted_age_days =
              parsePostedAgeDays (Some (normalizeSpace (Some (clock_text c)))),
            logo = normalizeSpace (img_src c),
            company_size = normalizeSpace (Some (company_size_text c)),
            funding_tags = tagTexts (funding_tags_texts c),
            what_they_do = normalizeSpace (Some (removeLabel (what_they_do_text c))),
            industries = tagTexts (industry_tags_texts c),
            source = sourceUrl\<rparr>"
  using assms by (auto simp: extractCard_def Let_def split: if_splits)

lemma extractCard_None_iff:
  "(extractCard c sourceUrl = None) = (normalizeSpace (jobA_href c) = [])"
  by (simp add: extractCard_def Let_def)

lemma extractCard_id:
  assumes "extractCard c sourceUrl = Some j"
  shows "job_id j = normalizeSpace (jobA_href c)" and "job_id j \<noteq> []" and "job_url j = job_id j"
  using extractCard_Some [OF assms] by (simp_all add: stableId_normalized)

lemma normalizeSpace_href_empty_iff:
  "(normalizeSpace h = []) = (\<forall>J. h = Some J \<longrightarrow> (\<forall>ch \<in> set J. isSpace ch))"
  by (cases h) (simp_all add: normalizeSpace_None normalizeSpace_empty_iff)

lemma filterFirstSeen_subset:
  "j \<in> set (filterFirstSeen seen js) \<Longrightarrow> j \<in> set js \<and> job_id j \<noteq> []"
  by (induction seen js rule: filterFirstSeen.induct) (auto split: if_splits)

lemma extractJobs_ids: "j \<in> set (extractJobsFromHtml cards sourceUrl) \<Longrightarrow> job_id j \<noteq> []"
  by (auto simp: extractJobsFromHtml_def dest: filterFirstSeen_subset)

lemma setProperty_dom_upper: "dom (setProperty indexObj k v) \<subseteq> insert k (dom indexObj)"
  by (auto simp: setProperty_def split: if_splits)

lemma upsertIndex_dom_upper:
  "dom (fst (upsertIndex indexObj job ts)) \<subseteq> insert (job_id job) (dom indexObj)"
  using setProperty_dom_upper [of indexObj "job_id job"]
  by (simp add: upsertIndex_def split: property.splits)

lemma upsertAll_dom_upper:
  "dom (upsertAll indexObj jobs ts) \<subseteq> dom indexObj \<union> job_id ` set jobs"
proof (induction jobs arbitrary: indexObj)
  case Nil
  show ?case by simp
next
  case (Cons job jobs)
  have "dom (upsertAll (fst (upsertIndex indexObj job ts)) jobs ts)
          \<subseteq> dom (fst (upsertIndex indexObj job ts)) \<union> job_id ` set jobs"
    by (rule Cons.IH)
  also have "\<dots> \<subseteq> insert (job_id job) (dom indexObj) \<union> job_id ` set jobs"
    using upsertIndex_dom_upper [of indexObj job ts] by blast
  finally show ?case by auto
qed

text \<open>
  Claim C1, as the code has it. The card's job link is read through \<open>normalizeSpace\<close>
  before \<open>stableIdFromJobUrl\<close> trims it, so for a card whose job link has the \<open>href\<close>
  \<open>J\<close> the id of the extracted record is \<open>J\<close> with every run of white space collapsed to
  one space and the ends trimmed. It is never empty: the card gives no record exactly
  when \<open>J\<close> is absent, empty or white space only. The id is \<open>trim J\<close> whenever \<open>trim J\<close>
  contains no white space, and \<open>stableIdFromJobUrl\<close> by itself is \<open>trim\<close>. No record of
  \<open>extractJobsFromHtml\<close> has an empty id, and upserting the records of a page adds no
  empty key to the index.
\<close>

theorem extracted_id:
  "(\<forall>j. extractCard c sourceUrl = Some j \<longrightarrow>
        job_id j = normalizeSpace (jobA_href c) \<and> job_id j \<noteq> [])
   \<and> ((extractCard c sourceUrl = None)
        = (\<forall>J. jobA_href c = Some J \<longrightarrow> (\<forall>ch \<in> set J. isSpace ch)))
   \<and> (\<forall>J j. jobA_href c = Some J \<and> extractCard c sourceUrl = Some j
          \<and> (\<forall>ch \<in> set (trim J). \<not> isSpace ch) \<longrightarrow> job_id j = trim J)
   \<and> stableIdFromJobUrl (Some u) = trim u
   \<and> (\<forall>j \<in> set (extractJobsFromHtml cards sourceUrl). job_id j \<noteq> [])
   \<and> (\<forall>k \<in> dom (upsertAll indexObj (extractJobsFromHtml cards sourceUrl) ts).
          k \<in> dom indexObj \<or> k \<noteq> [])"
proof (intro conjI allI impI ballI)
  fix j assume "extractCard c sourceUrl = Some j"
  then show "job_id j = normalizeSpace (jobA_href c)" and "job_id j \<noteq> []"
    by (rule extractCard_id)+
next
  show "(extractCard c sourceUrl = None)
          = (\<forall>J. jobA_href c = Some J \<longrightarrow> (\<forall>ch \<in> set J. isSpace ch))"
    by (simp only: extractCard_None_iff normalizeSpace_href_empty_iff)
next
  fix J j
  assume a: "jobA_href c = Some J \<and> extractCard c sourceUrl = Some j
               \<and> (\<forall>ch \<in> set (trim J). \<not> isSpace ch)"
  then have "job_id j = normalizeSpace (Some J)"
    using extractCard_id(1) [of c sourceUrl j] by simp
  also have "\<dots> = trim J"
    using a by (intro normalizeSpace_no_inner_space) simp
  finally show "job_id j = trim J" .
next
  show "stableIdFromJobUrl (Some u) = trim u" by (rule stableId_trim)
next
  fix j assume "j \<in> set (extractJobsFromHtml cards sourceUrl)"
  then show "job_id j \<noteq> []" by (rule extractJobs_ids)
next
  fix k assume "k \<in> dom (upsertAll indexObj (extractJobsFromHtml cards sourceUrl) ts)"
  then have "k \<in> dom indexObj \<union> job_id ` set (extractJobsFromHtml cards sourceUrl)"
    using upsertAll_dom_upper by blast
  then show "k \<in> dom indexObj \<or> k \<noteq> []"
    by (auto dest: extractJobs_ids)
qed

text \<open>
  Claim C1 as stated fails where the \<open>href\<close> has a run of white space inside: for
  \<open>/jobs/a  b\<close>, with two spaces, the id is \<open>/jobs/a b\<close>, which is not \<open>trim\<close> of the
  \<open>href\<close>.
\<close>

theorem extracted_id_counterexample:
  "jobA_href (cardOfHref (Some ''/jobs/a  b'')) = Some ''/jobs/a  b''
   \<and> map_option job_id (extractCard (cardOfHref (Some ''/jobs/a  b'')) ''src'') = Some ''/jobs/a b''
   \<and> trim ''/jobs/a  b'' = ''/jobs/a  b''
   \<and> map_option job_id (extractCard (cardOfHref (Some ''/jobs/a  b'')) ''src'')
        \<noteq> Some (trim ''/jobs/a  b'')"
proof -
  have n: "normalizeSpace (Some ''/jobs/a  b'') = ''/jobs/a b''"
    by (simp add: normalizeSpace_def orEmpty_def trim_def isSpace_def)
  have t: "trim ''/jobs/a  b'' = ''/jobs/a  b''"
    by (simp add: trim_def isSpace_def)
  have h: "jobA_href (cardOfHref (Some ''/jobs/a  b'')) = Some ''/jobs/a  b''"
    by (simp add: cardOfHref_def)
  have i: "map_option job_id (extractCard (cardOfHref (Some ''/jobs/a  b'')) ''src'')
             = Some ''/jobs/a b''"
    by (simp add: extractCard_def h n stableId_trim t Let_def trim_def isSpace_def)
  show ?thesis
    by (simp only: h i t) simp
qed

theorem extracted_id_witness:
  "map_option job_id (extractCard (cardOfHref (Some '' /jobs/7 '')) ''src'') = Some ''/jobs/7''
   \<and> extractCard (cardOfHref (Some ''  '')) ''src'' = None
   \<and> extractJobsFromHtml [cardOfHref (Some '' /jobs/7 ''), cardOfHref None] ''src'' \<noteq> []
   \<and> ''/jobs/7'' \<in> dom (upsertAll Map.empty
        (extractJobsFromHtml [cardOfHref (Some '' /jobs/7 ''), cardOfHref None] ''src'') ''t'')"
proof -
  let ?c = "cardOfHref (Some '' /jobs/7 '')"
  let ?cards = "[?c, cardOfHref None]"
  note inst = extracted_id [of ?c "''src''" "'' /jobs/7 ''" ?cards Map.empty "''t''"]
  have h: "jobA_href ?c = Some '' /jobs/7 ''"
    by (simp add: cardOfHref_def)
  have t: "trim '' /jobs/7 '' = ''/jobs/7''"
    by (simp add: trim_def isSpace_def)
  have n: "normalizeSpace (Some '' /jobs/7 '') = ''/jobs/7''"
    by (simp add: normalizeSpace_def orEmpty_def trim_def isSpace_def)
  have ns: "\<forall>ch \<in> set (trim '' /jobs/7 ''). \<not> isSpace ch"
    by (simp add: t isSpace_def)
  obtain j where j: "extractCard ?c ''src'' = Some j"
    by (simp add: extractCard_def h n Let_def)
  from inst h j ns have "job_id j = trim '' /jobs/7 ''"
    by blast
  with j have a: "map_option job_id (extractCard ?c ''src'') = Some ''/jobs/7''"
    by (simp add: t)
  have h2: "jobA_href (cardOfHref (Some ''  '')) = Some ''  ''"
    by (simp add: cardOfHref_def)
  from extracted_id [of "cardOfHref (Some ''  '')" "''src''"]
  have "(extractCard (cardOfHref (Some ''  '')) ''src'' = None)
          = (\<forall>J. jobA_href (cardOfHref (Some ''  '')) = Some J \<longrightarrow> (\<forall>ch \<in> set J. isSpace ch))"
    by blast
  then have b: "extractCard (cardOfHref (Some ''  '')) ''src'' = None"
    by (simp add: h2 isSpace_def)
  have none: "extractCard (cardOfHref None) ''src'' = None"
    by (simp add: extractCard_def cardOfHref_def normalizeSpace_None)
  have idj: "job_id j = ''/jobs/7''"
    using a j by simp
  have jobs: "extractJobsFromHtml ?cards ''src'' = [j]"
    by (simp add: extractJobsFromHtml_def j none idj)
  then have c: "extractJobsFromHtml ?cards ''src'' \<noteq> []"
    by simp
  have "fst (upsertIndex Map.empty j ''t'') ''/jobs/7'' \<noteq> None"
    by (simp add: upsertIndex_def getProperty_def setProperty_def objectPrototypeNames_def idj)
  then have d: "''/jobs/7'' \<in> dom (upsertAll Map.empty (extractJobsFromHtml ?cards ''src'') ''t'')"
    by (auto simp: jobs)
  from a b c d show ?thesis by blast
qed

lemma normalizeSpace_Nil: "normalizeSpace (Some []) = []"
  by (simp add: normalizeSpace_empty_iff)

lemma stripTrailingNew_Nil: "stripTrailingNew (Some []) = []"
  by (simp add: stripTrailingNew_def orEmpty_def removeTrailingNew_def removeTrailingTagsNew_def
      normalizeSpace_Nil)

lemma parsePostedAgeDays_Nil: "parsePostedAgeDays (Some []) = None"
  by (simp add: parsePostedAgeDays_def normalizeSpace_Nil toLowerCase_def)

lemma tagTexts_Nil: "tagTexts [] = []"
  by (simp add: tagTexts_def)

text \<open>
  Claim C6, as the code has it. For every card that extraction keeps, a field whose
  source is absent (an attribute that \<open>attr\<close> does not find, a text that is empty) is the
  empty string in the record, with these exceptions: \<open>posted_age_days\<close> is unknown;
  \<open>apply_url\<close> falls back to the job link when the card has no apply link, so it is
  \<open>job_url\<close> and not empty; \<open>funding_tags\<close> and \<open>industries\<close> are empty lists.
\<close>

theorem absent_fields:
  assumes "extractCard c sourceUrl = Some j"
  shows "(companyA_text c = [] \<longrightarrow> company j = [])
       \<and> (companyA_href c = None \<longrightarrow> company_site j = [])
       \<and> (job_title_text c = [] \<longrightarrow> job_title j = [])
       \<and> (apply_button_href c = None \<longrightarrow> apply_url j = job_url j \<and> apply_url j \<noteq> [])
       \<and> (map_marker_text c = [] \<longrightarrow> location j = [])
       \<and> (briefcase_text c = [] \<longrightarrow> experience j = [])
       \<and> (clock_text c = [] \<longrightarrow> posted j = [] \<and> posted_age_days j = None)
       \<and> (img_src c = None \<longrightarrow> logo j = [])
       \<and> (company_size_text c = [] \<longrightarrow> company_size j = [])
       \<and> (funding_tags_texts c = [] \<longrightarrow> funding_tags j = [])
       \<and> (what_they_do_text c = [] \<longrightarrow> what_they_do j = [])
       \<and> (industry_tags_texts c = [] \<longrightarrow> industries j = [])"
proof -
  note j = extractCard_Some [OF assms]
  have url: "job_url j \<noteq> []"
    using extractCard_id [OF assms] by simp
  have texts: "company j = stripTrailingNew (Some (companyA_text c))"
    "job_title j = stripTrailingNew (Some (job_title_text c))"
    "location j = normalizeSpace (Some (map_marker_text c))"
    "experience j = normalizeSpace (Some (briefcase_text c))"
    "posted j = normalizeSpace (Some (clock_text c))"
    "posted_age_days j = parsePostedAgeDays (Some (normalizeSpace (Some (clock_text c))))"
    "company_size j = normalizeSpace (Some (company_size_text c))"
    "funding_tags j = tagTexts (funding_tags_texts c)"
    "what_they_do j = normalizeSpace (Some (removeLabel (what_they_do_text c)))"
    "industries j = tagTexts (industry_tags_texts c)"
    by (simp_all add: j(2))
  have attrs: "company_site j = normalizeSpace (companyA_href c)"
    "logo j = normalizeSpace (img_src c)"
    "apply_url j = (if normalizeSpace (apply_button_href c) = [] then job_url j
                    else normalizeSpace (apply_button_href c))"
    by (simp_all add: j(2))
  show ?thesis
    unfolding texts attrs using url
    by (simp add: normalizeSpace_Nil normalizeSpace_None stripTrailingNew_Nil
        parsePostedAgeDays_Nil tagTexts_Nil)
qed

text \<open>
  Claim C6 as stated fails for \<open>apply_url\<close>: on a card with a job link \<open>/jobs/7\<close> and no
  apply link, the code's \<open>|| jobUrl\<close> makes \<open>apply_url\<close> the job link, not the empty
  string.
\<close>

theorem absent_fields_counterexample:
  "apply_button_href (cardOfHref (Some ''/jobs/7'')) = None
   \<and> map_option apply_url (extractCard (cardOfHref (Some ''/jobs/7'')) ''src'') = Some ''/jobs/7''"
  by code_simp

theorem absent_fields_witness:
  "map_option (\<lambda>j. (company j, company_site j, job_title j, location j, experience j, posted j,
        posted_age_days j, logo j, company_size j, funding_tags j, what_they_do j, industries j))
      (extractCard (cardOfHref (Some ''/jobs/7'')) ''src'')
     = Some ('''', '''', '''', '''', '''', '''', None, '''', '''', [], '''', [])
   \<and> map_option (\<lambda>j. (apply_url j, job_url j)) (extractCard (cardOfHref (Some ''/jobs/7'')) ''src'')
     = Some (''/jobs/7'', ''/jobs/7'')"
proof -
  let ?c = "cardOfHref (Some ''/jobs/7'')"
  have n: "normalizeSpace (Some ''/jobs/7'') = ''/jobs/7''"
    by code_simp
  obtain j where j: "extractCard ?c ''src'' = Some j"
    by (simp add: extractCard_def cardOfHref_def n Let_def)
  have u: "job_url j = ''/jobs/7''"
    using extractCard_id [OF j] by (simp add: cardOfHref_def n)
  have c: "companyA_text ?c = []" "companyA_href ?c = None" "job_title_text ?c = []"
    "apply_button_href ?c = None" "map_marker_text ?c = []" "briefcase_text ?c = []"
    "clock_text ?c = []" "img_src ?c = None" "company_size_text ?c = []"
    "funding_tags_texts ?c = []" "what_they_do_text ?c = []" "industry_tags_texts ?c = []"
    by (simp_all add: cardOfHref_def)
  from absent_fields [OF j] show ?thesis
    by (simp add: c j u)
qed

lemma removeTrailingNew_id:
  "map asciiLower (drop (length s - 3) s) \<noteq> ''new'' \<Longrightarrow> removeTrailingNew s = s"
  by (simp add: removeTrailingNew_def Let_def)

lemma removeTrailingTagsNew_id:
  assumes "map asciiLower (drop (length s - 3) s) \<noteq> ''new''"
  shows "removeTrailingTagsNew s = s"
proof (cases "8 \<le> length s \<and> map asciiLower (drop (length s - 8) s) = ''tags.new''")
  case True
  then have "drop 5 (map asciiLower (drop (length s - 8) s)) = ''new''"
    by simp
  moreover have "drop 5 (drop (length s - 8) s) = drop (length s - 3) s"
    using True by simp
  ultimately have "map asciiLower (drop (length s - 3) s) = ''new''"
    by (simp add: drop_map)
  with assms show ?thesis by simp
next
  case False
  then show ?thesis by (auto simp: removeTrailingTagsNew_def Let_def)
qed

lemma stripTrailingNew_plain:
  "map asciiLower (drop (length s - 3) s) \<noteq> ''new''
     \<Longrightarrow> stripTrailingNew (Some s) = normalizeSpace (Some s)"
  by (simp add: stripTrailingNew_def orEmpty_def removeTrailingNew_id removeTrailingTagsNew_id)

lemma removeLabel_id:
  "\<not> includesStr (map asciiLower t) ''what they do:'' \<Longrightarrow> removeLabel t = t"
proof (induction t)
  case Nil
  show ?case by simp
next
  case (Cons c cs)
  have len: "length ''what they do:'' = 13"
    by simp
  from Cons.prems
  have "\<not> (take (length ''what they do:'') (asciiLower c # map asciiLower cs) = ''what they do:''
           \<or> includesStr (map asciiLower cs) ''what they do:'')"
    by (simp only: list.map includesStr.simps simp_thms)
  then have here: "take (length ''what they do:'') (map asciiLower (c # cs)) \<noteq> ''what they do:''"
    and rest: "\<not> includesStr (map asciiLower cs) ''what they do:''"
    unfolding list.map by blast+
  from here have "map asciiLower (take 13 (c # cs)) \<noteq> ''what they do:''"
    unfolding len by (simp only: take_map simp_thms)
  moreover have "removeLabel cs = cs"
    using rest by (rule Cons.IH)
  ultimately show ?case
    by (simp only: removeLabel.simps if_False)
qed

lemma filter_dropWhile_not: "filter (\<lambda>c. \<not> P c) (dropWhile P xs) = filter (\<lambda>c. \<not> P c) xs"
  by (induction xs) simp_all

lemma collapseSpaces_content:
  "filter (\<lambda>c. \<not> isSpace c) (collapseSpaces s) = filter (\<lambda>c. \<not> isSpace c) s"
  by (induction s rule: collapseSpaces.induct) (simp_all add: isSpace_space filter_dropWhile_not)

lemma trim_content: "filter (\<lambda>c. \<not> isSpace c) (trim s) = filter (\<lambda>c. \<not> isSpace c) s"
proof -
  obtain p q where s: "s = p @ trim s @ q" and p: "\<forall>c \<in> set p. isSpace c"
    and q: "\<forall>c \<in> set q. isSpace c"
    by (rule trim_split)
  have "filter (\<lambda>c. \<not> isSpace c) (p @ trim s @ q) = filter (\<lambda>c. \<not> isSpace c) (trim s)"
    using p q by (simp add: filter_empty_conv)
  with s show ?thesis by simp
qed

lemma collapseSpaces_plain: "c \<in> set (collapseSpaces s) \<Longrightarrow> isSpace c \<Longrightarrow> c = CHR 0x20"
  by (induction s rule: collapseSpaces.induct) (auto split: if_splits)

lemma set_trim: "set (trim s) \<subseteq> set s"
proof
  fix c assume "c \<in> set (trim s)"
  then have "c \<in> set (dropWhile isSpace (rev (dropWhile isSpace s)))"
    by (simp add: trim_def)
  then have "c \<in> set (rev (dropWhile isSpace s))"
    by (rule set_dropWhileD)
  then have "c \<in> set (dropWhile isSpace s)"
    by simp
  then show "c \<in> set s"
    by (rule set_dropWhileD)
qed

lemma trim_ends: "trim s = [] \<or> (\<not> isSpace (hd (trim s)) \<and> \<not> isSpace (last (trim s)))"
proof (cases "trim s = []")
  case True
  then show ?thesis by simp
next
  case False
  have "no_leading isSpace (trim s)"
    by (simp add: trim_strip flip: dropWhile_strip_while_commute)
  moreover have "no_trailing isSpace (trim s)"
    by (simp add: trim_strip)
  ultimately show ?thesis
    using False by (simp add: no_leading_def hd_rev)
qed

lemma normalizeSpace_shape:
  "filter (\<lambda>c. \<not> isSpace c) (normalizeSpace s) = filter (\<lambda>c. \<not> isSpace c) (orEmpty s)
   \<and> (\<forall>c \<in> set (normalizeSpace s). isSpace c \<longrightarrow> c = CHR 0x20)
   \<and> (normalizeSpace s = []
        \<or> (\<not> isSpace (hd (normalizeSpace s)) \<and> \<not> isSpace (last (normalizeSpace s))))"
proof (intro conjI ballI impI)
  show "filter (\<lambda>c. \<not> isSpace c) (normalizeSpace s) = filter (\<lambda>c. \<not> isSpace c) (orEmpty s)"
    by (simp add: normalizeSpace_def trim_content collapseSpaces_content)
next
  fix c assume "c \<in> set (normalizeSpace s)" and sp: "isSpace c"
  then have "c \<in> set (collapseSpaces (orEmpty s))"
    using set_trim by (auto simp: normalizeSpace_def)
  then show "c = CHR 0x20"
    using sp by (rule collapseSpaces_plain)
next
  show "normalizeSpace s = []
          \<or> (\<not> isSpace (hd (normalizeSpace s)) \<and> \<not> isSpace (last (normalizeSpace s)))"
    unfolding normalizeSpace_def by (rule trim_ends)
qed

text \<open>
  The second replacement of \<open>stripTrailingNew\<close> never applies: what the first one
  returns cannot end in \<open>tags.new\<close>.
\<close>

lemma new_length: "map asciiLower w = ''new'' \<Longrightarrow> length w = 3"
  by (metis length_map length_Cons list.size(3) numeral_3_eq_3)

lemma removeTrailingNew_cut:
  assumes s: "s = p @ w" and w: "map asciiLower w = ''new''"
    and b: "p = [] \<or> \<not> isWordChar (last p)"
  shows "removeTrailingNew s = p"
proof -
  have l: "length w = 3" using w by (rule new_length)
  have n: "length s - 3 = length p" using s l by simp
  have d: "drop (length s - 3) s = w" and t: "take (length s - 3) s = p"
    unfolding n by (simp_all add: s)
  have c: "length s = 3 \<or> \<not> isWordChar (s ! (length s - 4))"
  proof (cases "p = []")
    case True
    then show ?thesis using s l by simp
  next
    case False
    then have "length s - 4 = length p - 1" using s l by simp
    moreover have "s ! (length p - 1) = last p"
      using False by (simp add: s nth_append last_conv_nth)
    ultimately show ?thesis using b False by simp
  qed
  have "3 \<le> length s" using s l by simp
  then show ?thesis
    using c by (auto simp: removeTrailingNew_def Let_def d t w)
qed

lemma removeTrailingNew_keep:
  assumes "\<nexists>p w. s = p @ w \<and> map asciiLower w = ''new'' \<and> (p = [] \<or> \<not> isWordChar (last p))"
  shows "removeTrailingNew s = s"
proof (rule ccontr)
  assume ne: "removeTrailingNew s \<noteq> s"
  let ?n = "length s"
  from ne have c: "3 \<le> ?n" "map asciiLower (drop (?n - 3) s) = ''new''"
    "?n = 3 \<or> \<not> isWordChar (s ! (?n - 4))"
    by (auto simp: removeTrailingNew_def Let_def split: if_splits)
  let ?p = "take (?n - 3) s"
  have "s = ?p @ drop (?n - 3) s" by simp
  moreover have "?p = [] \<or> \<not> isWordChar (last ?p)"
  proof (cases "?n = 3")
    case True
    then show ?thesis by simp
  next
    case False
    from c(1) c(3) False have ge: "4 \<le> ?n" and nw: "\<not> isWordChar (s ! (?n - 4))"
      by simp_all
    then have "?p \<noteq> []" by auto
    then have "last ?p = ?p ! (length ?p - 1)" by (rule last_conv_nth)
    also have "\<dots> = s ! (?n - 4)" using ge by simp
    finally show ?thesis using nw by simp
  qed
  ultimately have "\<exists>p w. s = p @ w \<and> map asciiLower w = ''new''
      \<and> (p = [] \<or> \<not> isWordChar (last p))"
    using c(2) by (intro exI [of _ ?p] exI [of _ "drop (?n - 3) s"] conjI)
  with assms show False ..
qed

lemma upper_cases:
  assumes "65 \<le> (of_char c :: nat)" "(of_char c :: nat) \<le> 90"
    and "list_all (\<lambda>n. P (char_of n)) [65..<91]"
  shows "P c"
proof -
  have "(of_char c :: nat) \<in> {65..<91}" using assms(1,2) by auto
  then have "(of_char c :: nat) \<in> set [65..<91]" by (simp only: set_upt)
  with assms(3) have "P (char_of (of_char c :: nat))"
    unfolding list_all_iff by blast
  then show ?thesis by simp
qed

lemma word_w: "asciiLower c = CHR ''w'' \<Longrightarrow> isWordChar c"
proof -
  assume a: "asciiLower c = CHR ''w''"
  show ?thesis
  proof (cases "65 \<le> (of_char c :: nat) \<and> (of_char c :: nat) \<le> 90")
    case True
    have "list_all (\<lambda>n. isWordChar (char_of n)) [65..<91]"
      by code_simp
    with True show ?thesis
      using upper_cases [of c isWordChar] by blast
  next
    case False
    with a have "c = CHR ''w''" by (simp add: asciiLower_def Let_def)
    then show ?thesis by (simp add: isWordChar_def)
  qed
qed

lemma dot_not_word: "asciiLower c = CHR ''.'' \<Longrightarrow> \<not> isWordChar c"
proof -
  assume a: "asciiLower c = CHR ''.''"
  show ?thesis
  proof (cases "65 \<le> (of_char c :: nat) \<and> (of_char c :: nat) \<le> 90")
    case True
    have "list_all (\<lambda>n. asciiLower (char_of n) \<noteq> CHR ''.'') [65..<91]"
      by code_simp
    with True have "asciiLower c \<noteq> CHR ''.''"
      using upper_cases [of c "\<lambda>x. asciiLower x \<noteq> CHR ''.''"] by blast
    with a show ?thesis by simp
  next
    case False
    with a have "c = CHR ''.''" by (simp add: asciiLower_def Let_def)
    then show ?thesis by (simp add: isWordChar_def)
  qed
qed


lemma tags_new_shape:
  assumes "map asciiLower v = ''tags.new''"
  shows "\<exists>u d x y z. v = u @ [d, x, y, z] \<and> asciiLower d = CHR ''.''
           \<and> map asciiLower [x, y, z] = ''new'' \<and> asciiLower z = CHR ''w''"
proof -
  from assms obtain a b c e d x y z where v: "v = [a, b, c, e, d, x, y, z]"
    and l: "asciiLower d = CHR ''.''" "asciiLower x = CHR ''n''" "asciiLower y = CHR ''e''"
      "asciiLower z = CHR ''w''"
    by (auto simp: map_eq_Cons_conv)
  have "v = [a, b, c, e] @ [d, x, y, z]" by (simp add: v)
  with l show ?thesis by auto
qed

lemma removeTrailingTagsNew_dead:
  "removeTrailingTagsNew (removeTrailingNew s) = removeTrailingNew s"
proof (rule ccontr)
  let ?r = "removeTrailingNew s"
  assume ne: "removeTrailingTagsNew ?r \<noteq> ?r"
  then have "map asciiLower (drop (length ?r - 8) ?r) = ''tags.new''"
    by (auto simp: removeTrailingTagsNew_def Let_def split: if_splits)
  then have "\<exists>u d x y z. drop (length ?r - 8) ?r = u @ [d, x, y, z]
      \<and> asciiLower d = CHR ''.'' \<and> map asciiLower [x, y, z] = ''new''
      \<and> asciiLower z = CHR ''w''"
    by (rule tags_new_shape)
  then obtain u d x y z where v: "drop (length ?r - 8) ?r = u @ [d, x, y, z]"
    and d: "asciiLower d = CHR ''.''" and w: "map asciiLower [x, y, z] = ''new''"
    and z: "asciiLower z = CHR ''w''"
    by (elim exE conjE)
  define p where "p = take (length ?r - 8) ?r @ u @ [d]"
  have r: "?r = p @ [x, y, z]"
    unfolding p_def using v by (metis append.assoc append_Cons append_Nil append_take_drop_id)
  have lastr: "isWordChar (last ?r)"
    using z by (subst r) (simp add: word_w)
  have bound: "p = [] \<or> \<not> isWordChar (last p)"
    using d by (simp add: p_def dot_not_word)
  have fire: "\<exists>p w. ?r = p @ w \<and> map asciiLower w = ''new'' \<and> (p = [] \<or> \<not> isWordChar (last p))"
    by (intro exI [of _ p] exI [of _ "[x, y, z]"] conjI r w bound)
  have rne: "?r \<noteq> []" using r by simp
  show False
  proof (cases "\<exists>p w. s = p @ w \<and> map asciiLower w = ''new'' \<and> (p = [] \<or> \<not> isWordChar (last p))")
    case True
    then obtain q w where q: "s = q @ w" "map asciiLower w = ''new''"
        "q = [] \<or> \<not> isWordChar (last q)"
      by (elim exE conjE)
    have rq: "?r = q" using q by (rule removeTrailingNew_cut)
    from rne lastr have "q \<noteq> []" and "isWordChar (last q)"
      unfolding rq by simp_all
    with q(3) show False by simp
  next
    case False
    then have "?r = s" by (rule removeTrailingNew_keep)
    with fire have "\<exists>p w. s = p @ w \<and> map asciiLower w = ''new''
        \<and> (p = [] \<or> \<not> isWordChar (last p))"
      by simp
    with False show False ..
  qed
qed

lemma stripTrailingNew_once:
  "stripTrailingNew (Some s) = normalizeSpace (Some (removeTrailingNew s))"
  by (simp add: stripTrailingNew_def orEmpty_def removeTrailingTagsNew_dead)

lemma stripTrailingNew_cut:
  assumes "s = p @ w" and "map asciiLower w = ''new''" and "p = [] \<or> \<not> isWordChar (last p)"
  shows "stripTrailingNew (Some s) = normalizeSpace (Some p)"
  by (simp only: stripTrailingNew_once removeTrailingNew_cut [OF assms])

lemma stripTrailingNew_keep:
  assumes "\<nexists>p w. s = p @ w \<and> map asciiLower w = ''new'' \<and> (p = [] \<or> \<not> isWordChar (last p))"
  shows "stripTrailingNew (Some s) = normalizeSpace (Some s)"
  by (simp only: stripTrailingNew_once removeTrailingNew_keep [OF assms])

lemma label_length: "map asciiLower l = ''what they do:'' \<Longrightarrow> length l = 13"
proof -
  assume "map asciiLower l = ''what they do:''"
  then have "length (map asciiLower l) = length ''what they do:''" by simp
  then show ?thesis by simp
qed

lemma removeLabel_cut:
  assumes l: "map asciiLower l = ''what they do:''"
    and first: "\<forall>a b. pre @ l = a @ b \<and> length a < length pre
                   \<longrightarrow> map asciiLower (take 13 b) \<noteq> ''what they do:''"
    and ws: "\<forall>x \<in> set ws. isSpace x"
    and rest: "rest = [] \<or> \<not> isSpace (hd rest)"
  shows "removeLabel (pre @ l @ ws @ rest) = pre @ rest"
  using first
proof (induction pre)
  case Nil
  have len: "length l = 13" using l by (rule label_length)
  then obtain c cs where lc: "l = c # cs" by (cases l) auto
  have tk: "take 13 (l @ ws @ rest) = l" and dr: "drop 13 (l @ ws @ rest) = ws @ rest"
    using len by simp_all
  have dw: "dropWhile isSpace (ws @ rest) = rest"
    using ws rest by (cases rest) auto
  have "removeLabel ((c # cs) @ ws @ rest)
          = (if map asciiLower (take 13 ((c # cs) @ ws @ rest)) = ''what they do:''
             then dropWhile isSpace (drop 13 ((c # cs) @ ws @ rest))
             else c # removeLabel (cs @ ws @ rest))"
    by (simp only: append_Cons removeLabel.simps)
  then show ?case
    unfolding lc [symmetric] tk dr dw using l by simp
next
  case (Cons c pre)
  have len: "length l = 13" using l by (rule label_length)
  have here: "map asciiLower (take 13 ((c # pre) @ l)) \<noteq> ''what they do:''"
    using Cons.prems by (metis append_Nil length_greater_0_conv list.distinct(1) list.size(3))
  have tk: "take 13 ((c # pre) @ l @ ws @ rest) = take 13 ((c # pre) @ l)"
    using len by simp
  have sub: "\<forall>a b. pre @ l = a @ b \<and> length a < length pre
               \<longrightarrow> map asciiLower (take 13 b) \<noteq> ''what they do:''"
  proof (intro allI impI)
    fix a b assume "pre @ l = a @ b \<and> length a < length pre"
    then have "(c # pre) @ l = (c # a) @ b \<and> length (c # a) < length (c # pre)" by simp
    then show "map asciiLower (take 13 b) \<noteq> ''what they do:''"
      by (rule Cons.prems [rule_format])
  qed
  define tail where "tail = pre @ l @ ws @ rest"
  have whole: "(c # pre) @ l @ ws @ rest = c # tail"
    by (simp add: tail_def)
  have cond: "map asciiLower (take 13 (c # tail)) \<noteq> ''what they do:''"
    using here unfolding tk [symmetric] whole .
  have "removeLabel (c # tail) = c # removeLabel tail"
    by (simp only: removeLabel.simps cond if_False)
  also have "removeLabel tail = pre @ rest"
    unfolding tail_def by (rule Cons.IH [OF sub])
  finally show ?case
    unfolding whole by simp
qed


lemma includesStr_split: "includesStr u p \<Longrightarrow> \<exists>a b. u = a @ p @ b"
proof (induction u)
  case Nil
  then show ?case by simp
next
  case (Cons c cs)
  from Cons.prems have "take (length p) (c # cs) = p \<or> includesStr cs p"
    by (simp only: includesStr.simps)
  then show ?case
  proof
    assume "take (length p) (c # cs) = p"
    then have "c # cs = [] @ p @ drop (length p) (c # cs)"
      by (metis append_Nil append_take_drop_id)
    then show ?thesis by blast
  next
    assume "includesStr cs p"
    then obtain a b where "cs = a @ p @ b"
      using Cons.IH by blast
    then have "c # cs = (c # a) @ p @ b" by simp
    then show ?thesis by blast
  qed
qed

lemma map_split3:
  assumes "map f t = a @ p @ b"
  shows "\<exists>pre l post. t = pre @ l @ post \<and> map f l = p"
proof -
  from assms obtain pre r where t: "t = pre @ r" and r: "map f r = p @ b"
    by (metis map_eq_append_conv)
  from r obtain l post where "r = l @ post" and "map f l = p"
    by (metis map_eq_append_conv)
  with t have "t = pre @ l @ post \<and> map f l = p" by simp
  then show ?thesis by (intro exI)
qed

lemma removeLabel_keep:
  assumes "\<nexists>pre l post. t = pre @ l @ post \<and> map asciiLower l = ''what they do:''"
  shows "removeLabel t = t"
proof (rule removeLabel_id, rule notI)
  assume "includesStr (map asciiLower t) ''what they do:''"
  then have "\<exists>a b. map asciiLower t = a @ ''what they do:'' @ b"
    by (rule includesStr_split)
  then obtain a b where "map asciiLower t = a @ ''what they do:'' @ b"
    by (elim exE)
  then have "\<exists>pre l post. t = pre @ l @ post \<and> map asciiLower l = ''what they do:''"
    by (rule map_split3)
  with assms show False ..
qed

lemma ends_new_drop:
  assumes "s = p @ w" and "map asciiLower w = ''new''"
  shows "map asciiLower (drop (length s - 3) s) = ''new''"
proof -
  have "length w = 3" using assms(2) by (rule new_length)
  then have "drop (length s - 3) s = w" by (simp add: assms(1))
  with assms(2) show ?thesis by simp
qed

text \<open>
  Claim C7, as the code has it. For every card that extraction keeps: \<open>location\<close>,
  \<open>experience\<close>, \<open>posted\<close>, \<open>company_size\<close>, \<open>company_site\<close>, \<open>logo\<close> and \<open>job_url\<close> are
  their source text with white-space runs collapsed and the ends trimmed, and nothing
  else; \<open>apply_url\<close> is the normalised apply link, or \<open>job_url\<close> when that is empty;
  \<open>funding_tags\<close> and \<open>industries\<close> are the normalised texts of their elements, the
  empty ones dropped. \<open>company\<close> and \<open>job_title\<close> are normalised after a trailing word
  \<open>New\<close> has been cut off: when the text ends with \<open>new\<close> in any case, at the start of the
  text or after a character that is no word character, the stored value is the
  normalised text before it, and otherwise the normalised text. \<open>what_they_do\<close> is
  normalised after the first \<open>what they do:\<close> label, in any case, has been cut out with
  the white space that follows it, and is the normalised text when there is no label.
\<close>

theorem normalized_fields:
  assumes "extractCard c sourceUrl = Some j"
  shows "location j = normalizeSpace (Some (map_marker_text c))
       \<and> experience j = normalizeSpace (Some (briefcase_text c))
       \<and> posted j = normalizeSpace (Some (clock_text c))
       \<and> company_size j = normalizeSpace (Some (company_size_text c))
       \<and> company_site j = normalizeSpace (companyA_href c)
       \<and> logo j = normalizeSpace (img_src c)
       \<and> job_url j = normalizeSpace (jobA_href c)
       \<and> apply_url j = (if normalizeSpace (apply_button_href c) = [] then job_url j
                         else normalizeSpace (apply_button_href c))
       \<and> funding_tags j
           = filter (\<lambda>s. s \<noteq> []) (map (\<lambda>s. normalizeSpace (Some s)) (funding_tags_texts c))
       \<and> industries j
           = filter (\<lambda>s. s \<noteq> []) (map (\<lambda>s. normalizeSpace (Some s)) (industry_tags_texts c))
       \<and> (\<forall>p w. companyA_text c = p @ w \<and> map asciiLower w = ''new''
              \<and> (p = [] \<or> \<not> isWordChar (last p))
            \<longrightarrow> company j = normalizeSpace (Some p))
       \<and> ((\<nexists>p w. companyA_text c = p @ w \<and> map asciiLower w = ''new''
              \<and> (p = [] \<or> \<not> isWordChar (last p)))
            \<longrightarrow> company j = normalizeSpace (Some (companyA_text c)))
       \<and> (\<forall>p w. job_title_text c = p @ w \<and> map asciiLower w = ''new''
              \<and> (p = [] \<or> \<not> isWordChar (last p))
            \<longrightarrow> job_title j = normalizeSpace (Some p))
       \<and> ((\<nexists>p w. job_title_text c = p @ w \<and> map asciiLower w = ''new''
              \<and> (p = [] \<or> \<not> isWordChar (last p)))
            \<longrightarrow> job_title j = normalizeSpace (Some (job_title_text c)))
       \<and> (\<forall>pre l ws rest. what_they_do_text c = pre @ l @ ws @ rest
              \<and> map asciiLower l = ''what they do:''
              \<and> (\<forall>a b. pre @ l = a @ b \<and> length a < length pre
                     \<longrightarrow> map asciiLower (take 13 b) \<noteq> ''what they do:'')
              \<and> (\<forall>x \<in> set ws. isSpace x) \<and> (rest = [] \<or> \<not> isSpace (hd rest))
            \<longrightarrow> what_they_do j = normalizeSpace (Some (pre @ rest)))
       \<and> ((\<nexists>pre l post. what_they_do_text c = pre @ l @ post
              \<and> map asciiLower l = ''what they do:'')
            \<longrightarrow> what_they_do j = normalizeSpace (Some (what_they_do_text c)))"
proof -
  note j = extractCard_Some(2) [OF assms]
  have plain: "location j = normalizeSpace (Some (map_marker_text c))"
    "experience j = normalizeSpace (Some (briefcase_text c))"
    "posted j = normalizeSpace (Some (clock_text c))"
    "company_size j = normalizeSpace (Some (company_size_text c))"
    "company_site j = normalizeSpace (companyA_href c)"
    "logo j = normalizeSpace (img_src c)"
    "job_url j = normalizeSpace (jobA_href c)"
    "apply_url j = (if normalizeSpace (apply_button_href c) = [] then job_url j
                    else normalizeSpace (apply_button_href c))"
    "funding_tags j
       = filter (\<lambda>s. s \<noteq> []) (map (\<lambda>s. normalizeSpace (Some s)) (funding_tags_texts c))"
    "industries j
       = filter (\<lambda>s. s \<noteq> []) (map (\<lambda>s. normalizeSpace (Some s)) (industry_tags_texts c))"
    by (simp_all add: j tagTexts_def)
  have co: "company j = stripTrailingNew (Some (companyA_text c))"
    and ti: "job_title j = stripTrailingNew (Some (job_title_text c))"
    and wh: "what_they_do j = normalizeSpace (Some (removeLabel (what_they_do_text c)))"
    by (simp_all add: j)
  have c1: "\<forall>p w. companyA_text c = p @ w \<and> map asciiLower w = ''new''
              \<and> (p = [] \<or> \<not> isWordChar (last p))
            \<longrightarrow> company j = normalizeSpace (Some p)"
    unfolding co by (intro allI impI, elim conjE) (rule stripTrailingNew_cut)
  have c2: "(\<nexists>p w. companyA_text c = p @ w \<and> map asciiLower w = ''new''
              \<and> (p = [] \<or> \<not> isWordChar (last p)))
            \<longrightarrow> company j = normalizeSpace (Some (companyA_text c))"
    unfolding co by (intro impI) (rule stripTrailingNew_keep)
  have t1: "\<forall>p w. job_title_text c = p @ w \<and> map asciiLower w = ''new''
              \<and> (p = [] \<or> \<not> isWordChar (last p))
            \<longrightarrow> job_title j = normalizeSpace (Some p)"
    unfolding ti by (intro allI impI, elim conjE) (rule stripTrailingNew_cut)
  have t2: "(\<nexists>p w. job_title_text c = p @ w \<and> map asciiLower w = ''new''
              \<and> (p = [] \<or> \<not> isWordChar (last p)))
            \<longrightarrow> job_title j = normalizeSpace (Some (job_title_text c))"
    unfolding ti by (intro impI) (rule stripTrailingNew_keep)
  have w1: "\<forall>pre l ws rest. what_they_do_text c = pre @ l @ ws @ rest
              \<and> map asciiLower l = ''what they do:''
              \<and> (\<forall>a b. pre @ l = a @ b \<and> length a < length pre
                     \<longrightarrow> map asciiLower (take 13 b) \<noteq> ''what they do:'')
              \<and> (\<forall>x \<in> set ws. isSpace x) \<and> (rest = [] \<or> \<not> isSpace (hd rest))
            \<longrightarrow> what_they_do j = normalizeSpace (Some (pre @ rest))"
  proof (intro allI impI, elim conjE)
    fix pre l ws rest
    assume t: "what_they_do_text c = pre @ l @ ws @ rest"
      and l: "map asciiLower l = ''what they do:''"
      and f: "\<forall>a b. pre @ l = a @ b \<and> length a < length pre
                     \<longrightarrow> map asciiLower (take 13 b) \<noteq> ''what they do:''"
      and s: "\<forall>x \<in> set ws. isSpace x" and r: "rest = [] \<or> \<not> isSpace (hd rest)"
    have "removeLabel (pre @ l @ ws @ rest) = pre @ rest"
      using l f s r by (rule removeLabel_cut)
    then show "what_they_do j = normalizeSpace (Some (pre @ rest))"
      by (simp only: wh t)
  qed
  have w2: "(\<nexists>pre l post. what_they_do_text c = pre @ l @ post
              \<and> map asciiLower l = ''what they do:'')
            \<longrightarrow> what_they_do j = normalizeSpace (Some (what_they_do_text c))"
  proof
    assume "\<nexists>pre l post. what_they_do_text c = pre @ l @ post
              \<and> map asciiLower l = ''what they do:''"
    then have "removeLabel (what_they_do_text c) = what_they_do_text c"
      by (rule removeLabel_keep)
    then show "what_they_do j = normalizeSpace (Some (what_they_do_text c))"
      by (simp only: wh)
  qed
  show ?thesis
    by (intro conjI plain c1 c2 t1 t2 w1 w2)
qed

text \<open>
  Claim C7 as stated fails for \<open>company\<close>: on a card whose company link has the text
  \<open>Acme New\<close>, the stored value is \<open>Acme\<close>, while collapsing and trimming alone leave
  \<open>Acme New\<close>.
\<close>

theorem normalized_fields_counterexample:
  "map_option company
     (extractCard ((cardOfHref (Some ''/jobs/7''))
        \<lparr>companyA_text := ''Acme New'', companyA_href := Some ''https://acme.example/''\<rparr>) ''src'')
     = Some ''Acme''
   \<and> normalizeSpace (Some ''Acme New'') = ''Acme New''"
  by code_simp

theorem normalized_fields_witness:
  "map_option (\<lambda>j. (company j, job_title j, location j, what_they_do j))
     (extractCard ((cardOfHref (Some ''/jobs/7''))
        \<lparr>companyA_text := ''Acme NEW'', companyA_href := Some ''https://acme.example/'',
         job_title_text := '' Rocket  Engineer '', map_marker_text := ''  Paris,  France'',
         what_they_do_text := ''What they do:  Builds   rockets ''\<rparr>) ''src'')
     = Some (''Acme'', ''Rocket Engineer'', ''Paris, France'', ''Builds rockets'')"
proof -
  let ?c = "(cardOfHref (Some ''/jobs/7''))
        \<lparr>companyA_text := ''Acme NEW'', companyA_href := Some ''https://acme.example/'',
         job_title_text := '' Rocket  Engineer '', map_marker_text := ''  Paris,  France'',
         what_they_do_text := ''What they do:  Builds   rockets ''\<rparr>"
  have n: "normalizeSpace (Some ''/jobs/7'') = ''/jobs/7''"
    by code_simp
  obtain j where j: "extractCard ?c ''src'' = Some j"
    by (simp add: extractCard_def cardOfHref_def n Let_def)
  have c: "companyA_text ?c = ''Acme NEW''" "job_title_text ?c = '' Rocket  Engineer ''"
    "map_marker_text ?c = ''  Paris,  France''"
    "what_they_do_text ?c = ''What they do:  Builds   rockets ''"
    by (simp_all add: cardOfHref_def)
  note nf = normalized_fields [OF j, unfolded c]
  have co: "company j = normalizeSpace (Some ''Acme '')"
  proof -
    have "''Acme NEW'' = ''Acme '' @ ''NEW'' \<and> map asciiLower ''NEW'' = ''new''
            \<and> (''Acme '' = [] \<or> \<not> isWordChar (last ''Acme ''))"
      by code_simp
    moreover from nf have "\<forall>p w. ''Acme NEW'' = p @ w \<and> map asciiLower w = ''new''
              \<and> (p = [] \<or> \<not> isWordChar (last p))
            \<longrightarrow> company j = normalizeSpace (Some p)"
      by (elim conjE)
    ultimately show ?thesis by (elim allE impE) assumption+
  qed
  have ti: "job_title j = normalizeSpace (Some '' Rocket  Engineer '')"
  proof -
    have "\<nexists>p w. '' Rocket  Engineer '' = p @ w \<and> map asciiLower w = ''new''
            \<and> (p = [] \<or> \<not> isWordChar (last p))"
    proof
      assume "\<exists>p w. '' Rocket  Engineer '' = p @ w \<and> map asciiLower w = ''new''
            \<and> (p = [] \<or> \<not> isWordChar (last p))"
      then obtain p w where "'' Rocket  Engineer '' = p @ w" and "map asciiLower w = ''new''"
        by (elim exE conjE)
      then have "map asciiLower (drop (length '' Rocket  Engineer '' - 3) '' Rocket  Engineer '')
                   = ''new''"
        by (rule ends_new_drop)
      moreover have "map asciiLower (drop (length '' Rocket  Engineer '' - 3) '' Rocket  Engineer '')
                   \<noteq> ''new''"
        by code_simp
      ultimately show False by (rule notE [rotated])
    qed
    moreover from nf have "(\<nexists>p w. '' Rocket  Engineer '' = p @ w \<and> map asciiLower w = ''new''
              \<and> (p = [] \<or> \<not> isWordChar (last p)))
            \<longrightarrow> job_title j = normalizeSpace (Some '' Rocket  Engineer '')"
      by (elim conjE)
    ultimately show ?thesis by (elim impE) assumption+
  qed
  from nf have lo: "location j = normalizeSpace (Some ''  Paris,  France'')"
    by (elim conjE)
  have wh: "what_they_do j = normalizeSpace (Some ([] @ ''Builds   rockets ''))"
  proof -
    have e1: "''What they do:  Builds   rockets ''
                = [] @ ''What they do:'' @ ''  '' @ ''Builds   rockets ''"
      by simp
    have e2: "map asciiLower ''What they do:'' = ''what they do:''"
      by code_simp
    have e3: "\<forall>a b. [] @ ''What they do:'' = a @ b \<and> length a < length ([] :: string)
                     \<longrightarrow> map asciiLower (take 13 b) \<noteq> ''what they do:''"
      by simp
    have e4: "\<forall>x \<in> set ''  ''. isSpace x"
      by code_simp
    have e5: "''Builds   rockets '' = [] \<or> \<not> isSpace (hd ''Builds   rockets '')"
      by code_simp
    from nf have W: "\<forall>pre l ws rest. ''What they do:  Builds   rockets '' = pre @ l @ ws @ rest
              \<and> map asciiLower l = ''what they do:''
              \<and> (\<forall>a b. pre @ l = a @ b \<and> length a < length pre
                     \<longrightarrow> map asciiLower (take 13 b) \<noteq> ''what they do:'')
              \<and> (\<forall>x \<in> set ws. isSpace x) \<and> (rest = [] \<or> \<not> isSpace (hd rest))
            \<longrightarrow> what_they_do j = normalizeSpace (Some (pre @ rest))"
      by (elim conjE)
    have "''What they do:  Builds   rockets ''
                = [] @ ''What they do:'' @ ''  '' @ ''Builds   rockets ''
            \<and> map asciiLower ''What they do:'' = ''what they do:''
            \<and> (\<forall>a b. [] @ ''What they do:'' = a @ b \<and> length a < length ([] :: string)
                     \<longrightarrow> map asciiLower (take 13 b) \<noteq> ''what they do:'')
            \<and> (\<forall>x \<in> set ''  ''. isSpace x)
            \<and> (''Builds   rockets '' = [] \<or> \<not> isSpace (hd ''Builds   rockets ''))"
      by (intro conjI e1 e2 e3 e4 e5)
    then show ?thesis
      by (rule W [rule_format, of "[]" "''What they do:''" "''  ''" "''Builds   rockets ''"])
  qed
  have v: "normalizeSpace (Some ''Acme '') = ''Acme''"
    "normalizeSpace (Some '' Rocket  Engineer '') = ''Rocket Engineer''"
    "normalizeSpace (Some ''  Paris,  France'') = ''Paris, France''"
    "normalizeSpace (Some ([] @ ''Builds   rockets '')) = ''Builds rockets''"
    by code_simp+
  show ?thesis
    by (simp only: j co ti lo wh v option.map)
qed

end
